theory Spec2Isabelle
  imports Complex_Main "HOL-Library.Sublist"
begin

section \<open>EduMentor backend: a shallow embedding of \<open>backend/server.py\<close>\<close>

text \<open>
  The request handlers of \<open>server.py\<close> are embedded as HOL functions. Everything a handler
  gets from outside the process is an explicit argument: the collections of the document
  database, the upload directory and the record of calls made to the language model are
  fields of a \<open>world\<close> record that each handler returns updated; the clock, the identifiers
  drawn by \<open>uuid.uuid4()\<close>, the salt of the password hash and the replies of the language
  model are arguments of the handler that consumes them. A raised exception is the left
  injection of the result; the world returned next to it is the one the handler had reached
  when it raised.
\<close>

subsection \<open>Python values used by the handlers\<close>

text \<open>
  \<open>HTTPException status detail\<close> is FastAPI's exception; the other constructors are
  exceptions of the interpreter and of the database driver that no handler catches (the
  framework answers them with status 500).
\<close>

datatype error =
    HTTPException nat string
  | ZeroDivisionError
  | OverflowError
  | TypeError

text \<open>
  A \<open>str\<close> is a list of code points; the type \<open>char\<close> holds those below 256. On these
  \<open>str.lower()\<close> works character by character: it maps the letters A to Z and the
  upper-case letters 0xC0 to 0xDE (the sign 0xD7 is no letter) to the letter 32 places
  further, and leaves every other character alone. \<open>str.strip()\<close> removes from both ends
  the characters for which \<open>str.isspace()\<close> holds: tab, line feed, vertical tab, form feed,
  carriage return, the separators 0x1C to 0x1F, the space, the next-line control 0x85 and
  the no-break space 0xA0.
\<close>

definition lower_char :: "char \<Rightarrow> char" where
  "lower_char c =
     (case map_of
        (zip (''ABCDEFGHIJKLMNOPQRSTUVWXYZ'' @
              [CHR 0xC0, CHR 0xC1, CHR 0xC2, CHR 0xC3, CHR 0xC4, CHR 0xC5, CHR 0xC6, CHR 0xC7,
               CHR 0xC8, CHR 0xC9, CHR 0xCA, CHR 0xCB, CHR 0xCC, CHR 0xCD, CHR 0xCE, CHR 0xCF,
               CHR 0xD0, CHR 0xD1, CHR 0xD2, CHR 0xD3, CHR 0xD4, CHR 0xD5, CHR 0xD6,
               CHR 0xD8, CHR 0xD9, CHR 0xDA, CHR 0xDB, CHR 0xDC, CHR 0xDD, CHR 0xDE])
             (''abcdefghijklmnopqrstuvwxyz'' @
              [CHR 0xE0, CHR 0xE1, CHR 0xE2, CHR 0xE3, CHR 0xE4, CHR 0xE5, CHR 0xE6, CHR 0xE7,
               CHR 0xE8, CHR 0xE9, CHR 0xEA, CHR 0xEB, CHR 0xEC, CHR 0xED, CHR 0xEE, CHR 0xEF,
               CHR 0xF0, CHR 0xF1, CHR 0xF2, CHR 0xF3, CHR 0xF4, CHR 0xF5, CHR 0xF6,
               CHR 0xF8, CHR 0xF9, CHR 0xFA, CHR 0xFB, CHR 0xFC, CHR 0xFD, CHR 0xFE])) c of
        None \<Rightarrow> c
      | Some d \<Rightarrow> d)"

definition lower :: "string \<Rightarrow> string" where
  "lower s = map lower_char s"

definition isspace :: "char \<Rightarrow> bool" where
  "isspace c \<longleftrightarrow>
     c \<in> set [CHR 0x09, CHR 0x0A, CHR 0x0B, CHR 0x0C, CHR 0x0D,
              CHR 0x1C, CHR 0x1D, CHR 0x1E, CHR 0x1F, CHR 0x20, CHR 0x85, CHR 0xA0]"

definition strip :: "string \<Rightarrow> string" where
  "strip s = rev (dropWhile isspace (rev (dropWhile isspace s)))"

text \<open>\<open>a in b\<close> on two strings: \<open>a\<close> occurs in \<open>b\<close> as a contiguous block.\<close>

definition str_in :: "string \<Rightarrow> string \<Rightarrow> bool" where
  "str_in a b \<longleftrightarrow> sublist a b"

text \<open>
  \<open>s.split(sep)\<close> for a one-character separator: the pieces between the occurrences of
  \<open>sep\<close>, at least one piece, empty pieces kept. \<open>split_acc\<close> carries the piece being read.
\<close>

fun split_acc :: "char \<Rightarrow> string \<Rightarrow> string \<Rightarrow> string list" where
  "split_acc sep cur [] = [cur]"
| "split_acc sep cur (c # cs) =
     (if c = sep then cur # split_acc sep [] cs else split_acc sep (cur @ [c]) cs)"

definition split :: "string \<Rightarrow> char \<Rightarrow> string list" where
  "split s sep = split_acc sep [] s"

text \<open>\<open>str(e)\<close> for the \<open>KeyError\<close> of a missing key: the key between apostrophes.\<close>

definition key_error_str :: "string \<Rightarrow> string" where
  "key_error_str key = CHR 0x27 # key @ [CHR 0x27]"

text \<open>
  \<open>str.title()\<close> on the letters A to Z and a to z: a letter is upper-cased unless the
  character before it is a letter, and lower-cased otherwise.
\<close>

definition upper_char :: "char \<Rightarrow> char" where
  "upper_char c =
     (case map_of (zip ''abcdefghijklmnopqrstuvwxyz'' ''ABCDEFGHIJKLMNOPQRSTUVWXYZ'') c of
        None \<Rightarrow> c
      | Some d \<Rightarrow> d)"

definition is_cased :: "char \<Rightarrow> bool" where
  "is_cased c \<longleftrightarrow>
     c \<in> set ''abcdefghijklmnopqrstuvwxyzABCDEFGHIJKLMNOPQRSTUVWXYZ''"

fun title_acc :: "bool \<Rightarrow> string \<Rightarrow> string" where
  "title_acc previous_is_cased [] = []"
| "title_acc previous_is_cased (c # cs) =
     (if is_cased c
      then (if previous_is_cased then lower_char c else upper_char c) # title_acc True cs
      else c # title_acc False cs)"

definition title :: "string \<Rightarrow> string" where
  "title s = title_acc False s"

subsection \<open>Float arithmetic of the score\<close>

text \<open>
  The score is \<open>int((correct_answers / total_questions) * 100)\<close>. The operands of \<open>/\<close> are
  Python integers, so its result is a \<open>float\<close>: the IEEE 754 binary64 number nearest to the
  exact quotient, ties going to the even significand. The product with \<open>100\<close> is rounded
  the same way, and \<open>int\<close> drops the fraction. Only non-negative numbers occur. A finite float
  is a pair \<open>(m, e)\<close> standing for \<open>m * 2 ^ e\<close>.
\<close>

type_synonym finite_float = "nat \<times> int"

text \<open>\<open>int.bit_length()\<close>.\<close>

fun bit_length :: "nat \<Rightarrow> nat" where
  "bit_length n = (if n = 0 then 0 else Suc (bit_length (n div 2)))"

declare bit_length.simps [simp del]

text \<open>
  For positive \<open>a\<close> and \<open>b\<close>, the integer \<open>k\<close> with \<open>2 ^ k \<le> a / b < 2 ^ (k + 1)\<close>.
\<close>

definition floor_log2 :: "nat \<Rightarrow> nat \<Rightarrow> int" where
  "floor_log2 a b =
     (if b \<le> a then int (bit_length (a div b)) - 1 else - int (bit_length ((b - 1) div a)))"

text \<open>The integer nearest to \<open>num / den\<close>, a tie going to the even neighbour.\<close>

definition round_half_even :: "nat \<Rightarrow> nat \<Rightarrow> nat" where
  "round_half_even num den =
     (let q = num div den; r = num mod den
      in if 2 * r < den then q
         else if den < 2 * r then q + 1
         else if even q then q else q + 1)"

text \<open>
  \<open>round64 a b s\<close> rounds the exact number \<open>(a / b) * 2 ^ s\<close> to 53 significant bits. The
  exponent of the last place is 52 below that of the leading bit and never below
  \<open>- 1074\<close>, the last place of the subnormal numbers. \<open>overflows\<close> tells whether the rounded
  number is beyond the largest finite binary64 number.
\<close>

definition round64 :: "nat \<Rightarrow> nat \<Rightarrow> int \<Rightarrow> finite_float" where
  "round64 a b s =
     (if a = 0 then (0, 0)
      else
        let e = max (floor_log2 a b + s - 52) (- 1074)
        in if e \<le> s then (round_half_even (a * 2 ^ nat (s - e)) b, e)
           else (round_half_even a (b * 2 ^ nat (e - s)), e))"

fun overflows :: "finite_float \<Rightarrow> bool" where
  "overflows (m, e) \<longleftrightarrow> 0 \<le> e \<and> 2 ^ 1024 \<le> m * 2 ^ nat e"

definition binary64 :: "nat \<Rightarrow> nat \<Rightarrow> int \<Rightarrow> finite_float option" where
  "binary64 a b s = (let x = round64 a b s in if overflows x then None else Some x)"

text \<open>
  \<open>a / b\<close> on integers raises \<open>ZeroDivisionError\<close> for a zero divisor and \<open>OverflowError\<close>
  when the quotient is too large for a float.
\<close>

definition py_truediv :: "nat \<Rightarrow> nat \<Rightarrow> error + finite_float" where
  "py_truediv a b =
     (if b = 0 then Inl ZeroDivisionError
      else case binary64 a b 0 of None \<Rightarrow> Inl OverflowError | Some x \<Rightarrow> Inr x)"

text \<open>The product of two finite floats; \<open>None\<close> is the infinity an overflow gives.\<close>

fun float_mul :: "finite_float \<Rightarrow> finite_float \<Rightarrow> finite_float option" where
  "float_mul (m1, e1) (m2, e2) = binary64 (m1 * m2) 1 (e1 + e2)"

text \<open>\<open>int(x)\<close> on a float: truncation, and \<open>OverflowError\<close> on infinity.\<close>

fun py_int :: "finite_float option \<Rightarrow> error + int" where
  "py_int None = Inl OverflowError"
| "py_int (Some (m, e)) =
     Inr (if 0 \<le> e then int (m * 2 ^ nat e) else int (m div 2 ^ nat (- e)))"

text \<open>\<open>int((correct_answers / total_questions) * 100)\<close>; the float \<open>100.0\<close> is \<open>(100, 0)\<close>.\<close>

definition compute_score :: "nat \<Rightarrow> nat \<Rightarrow> error + int" where
  "compute_score correct_answers total_questions =
     (case py_truediv correct_answers total_questions of
        Inl err \<Rightarrow> Inl err
      | Inr ratio \<Rightarrow> py_int (float_mul ratio (100, 0)))"

text \<open>The rational number a finite float stands for.\<close>

fun valf :: "finite_float \<Rightarrow> rat" where
  "valf (m, e) = of_nat m * 2 powi e"

subsection \<open>Documents of the quiz collection\<close>

record quiz_question =
  q_id :: string
  q_question :: string
  q_options :: "string list option"
  q_answer :: string
  q_explanation :: string
  q_question_type :: string

record quiz =
  qz_id :: string
  qz_material_id :: string
  qz_user_id :: string
  qz_title :: string
  qz_questions :: "quiz_question list"
  qz_quiz_type :: string
  qz_time_limit :: nat
  qz_created_at :: int

text \<open>
  An element of \<open>QuizResponse.user_answers\<close>, a dictionary of the shape the model class
  documents: \<open>{"question_id": str, "answer": str}\<close>.
\<close>

record user_answer =
  ua_question_id :: string
  ua_answer :: string

record quiz_response =
  qr_quiz_id :: string
  qr_user_answers :: "user_answer list"
  qr_score :: "int option"
  qr_completed_at :: int

subsection \<open>Grading a submission\<close>

text \<open>
  \<open>next((q for q in quiz["questions"] if q["id"] == question_id), None)\<close>: the first
  embedded question with the submitted id.
\<close>

definition find_question :: "quiz_question list \<Rightarrow> string \<Rightarrow> quiz_question option" where
  "find_question questions question_id = find (\<lambda>q. q_id q = question_id) questions"

text \<open>
  The condition of the \<open>if\<close> in the grading loop:
  \<open>question and question["answer"].lower().strip() in user_ans.lower().strip()\<close>.
\<close>

definition answer_correct :: "quiz_question list \<Rightarrow> user_answer \<Rightarrow> bool" where
  "answer_correct questions ua =
     (case find_question questions (ua_question_id ua) of
        None \<Rightarrow> False
      | Some question \<Rightarrow> str_in (strip (lower (q_answer question))) (strip (lower (ua_answer ua))))"

text \<open>The \<open>for\<close> loop over the submitted answers, with the counter it increments.\<close>

fun grade_loop :: "quiz_question list \<Rightarrow> user_answer list \<Rightarrow> nat \<Rightarrow> nat" where
  "grade_loop questions [] correct_answers = correct_answers"
| "grade_loop questions (ua # uas) correct_answers =
     grade_loop questions uas
       (if answer_correct questions ua then correct_answers + 1 else correct_answers)"

definition count_correct :: "quiz_question list \<Rightarrow> user_answer list \<Rightarrow> nat" where
  "count_correct questions user_answers = grade_loop questions user_answers 0"

subsection \<open>The other documents\<close>

text \<open>
  A password hash made by \<open>pwd_context.hash\<close> is kept symbolic: it records the salt and the
  password it was made from. \<open>verify\<close> hashes the candidate with the stored salt and
  compares, so it accepts exactly the password the hash was made from.
\<close>

datatype pwhash = Bcrypt string string

definition get_password_hash :: "string \<Rightarrow> string \<Rightarrow> pwhash" where
  "get_password_hash salt password = Bcrypt salt password"

fun verify_password :: "string \<Rightarrow> pwhash \<Rightarrow> bool" where
  "verify_password plain_password (Bcrypt salt password) \<longleftrightarrow> plain_password = password"

text \<open>The model class \<open>User\<close>, and the document of \<open>db.users\<close> that adds the hash to it.\<close>

record user =
  u_id :: string
  u_email :: string
  u_full_name :: string
  u_created_at :: int

record user_doc = user +
  hashed_password :: pwhash

record user_create =
  uc_email :: string
  uc_password :: string
  uc_full_name :: string

record user_login =
  ul_email :: string
  ul_password :: string

record study_material =
  m_id :: string
  m_user_id :: string
  m_title :: string
  m_file_type :: string
  m_extracted_text :: string
  m_uploaded_at :: int

record flashcard =
  fc_id :: string
  fc_material_id :: string
  fc_user_id :: string
  fc_question :: string
  fc_answer :: string
  fc_explanation :: string
  fc_created_at :: int

record upload_file =
  filename :: string
  content :: string

subsection \<open>Bearer tokens\<close>

text \<open>
  A token is kept symbolic as well: \<open>Jwt key claims\<close> is the HS256 token that \<open>jwt.encode\<close>
  makes from \<open>claims\<close> under \<open>key\<close>, \<open>Garbage\<close> any string that is no such token. Time is
  counted in seconds. \<open>jwt.decode\<close> raises a \<open>PyJWTError\<close>, here \<open>None\<close>, on garbage, on a
  token signed under another key and on a token whose \<open>exp\<close> claim is not in the future.
\<close>

record claims =
  sub :: "string option"
  exp :: "int option"

datatype jwt = Jwt string claims | Garbage string

record token =
  access_token :: jwt
  token_type :: string

definition ACCESS_TOKEN_EXPIRE_MINUTES :: int where
  "ACCESS_TOKEN_EXPIRE_MINUTES = 30"

definition minutes :: "int \<Rightarrow> int" where
  "minutes n = 60 * n"

definition jwt_encode :: "claims \<Rightarrow> string \<Rightarrow> jwt" where
  "jwt_encode to_encode key = Jwt key to_encode"

fun jwt_decode :: "int \<Rightarrow> jwt \<Rightarrow> string \<Rightarrow> claims option" where
  "jwt_decode now (Garbage s) key = None"
| "jwt_decode now (Jwt k payload) key =
     (if k \<noteq> key then None
      else case exp payload of
             None \<Rightarrow> Some payload
           | Some expire \<Rightarrow> if expire \<le> now then None else Some payload)"

text \<open>
  \<open>create_access_token\<close>; \<open>if expires_delta\<close> is false for \<open>None\<close> and for a zero
  \<open>timedelta\<close>.
\<close>

definition create_access_token :: "string \<Rightarrow> int \<Rightarrow> string \<Rightarrow> int option \<Rightarrow> jwt" where
  "create_access_token SECRET_KEY now subject expires_delta =
     (let expire = (case expires_delta of
                      None \<Rightarrow> now + minutes 15
                    | Some d \<Rightarrow> if d \<noteq> 0 then now + d else now + minutes 15)
      in jwt_encode \<lparr>sub = Some subject, exp = Some expire\<rparr> SECRET_KEY)"

subsection \<open>The world outside the handlers\<close>

text \<open>
  The calls made to the language model, with what each prompt takes from the request.
\<close>

datatype llm_request =
    ExtractText string string
  | QuizPrompt string string string
  | FlashcardPrompt string
  | ChatPrompt string string string

text \<open>
  What a call to the model gives back to a handler. \<open>LlmError msg\<close> stands for every
  exception raised before the reply is usable: by \<open>send_message\<close>, by \<open>json.loads\<close> on a
  reply that holds no JSON object, by the lookup of the list in the parsed object.
\<close>

datatype 'a llm_reply = LlmError string | LlmReply 'a

text \<open>
  The entries of the parsed lists are JSON objects; a key may be missing.
\<close>

record raw_question =
  rq_question :: "string option"
  rq_options :: "string list option"
  rq_answer :: "string option"
  rq_explanation :: "string option"

record raw_flashcard =
  rf_question :: "string option"
  rf_answer :: "string option"
  rf_explanation :: "string option"

text \<open>The dictionaries \<open>generate_flashcards_with_ai\<close> returns.\<close>

record flashcard_data =
  fd_question :: string
  fd_answer :: string
  fd_explanation :: string

record world =
  users :: "user_doc list"
  study_materials :: "study_material list"
  quizzes :: "quiz list"
  flashcards :: "flashcard list"
  quiz_responses :: "quiz_response list"
  uploads :: "string \<rightharpoonup> string"
  llm_calls :: "llm_request list"

text \<open>\<open>collection.find_one(filter)\<close>: the first document that satisfies the filter.\<close>

definition find_one :: "('a \<Rightarrow> bool) \<Rightarrow> 'a list \<Rightarrow> 'a option" where
  "find_one flt collection = find flt collection"

subsection \<open>Authentication\<close>

definition credentials_exception :: error where
  "credentials_exception = HTTPException 401 ''Could not validate credentials''"

definition get_current_user :: "string \<Rightarrow> int \<Rightarrow> world \<Rightarrow> jwt \<Rightarrow> error + user" where
  "get_current_user SECRET_KEY now w credentials =
     (case jwt_decode now credentials SECRET_KEY of
        None \<Rightarrow> Inl credentials_exception
      | Some payload \<Rightarrow>
          (case sub payload of
             None \<Rightarrow> Inl credentials_exception
           | Some user_id \<Rightarrow>
               (case find_one (\<lambda>u. u_id u = user_id) (users w) of
                  None \<Rightarrow> Inl credentials_exception
                | Some u \<Rightarrow> Inr (user.truncate u))))"

text \<open>\<open>register\<close>; \<open>new_id\<close> is the identifier \<open>uuid.uuid4()\<close> draws for the new user.\<close>

definition register ::
  "string \<Rightarrow> int \<Rightarrow> string \<Rightarrow> string \<Rightarrow> world \<Rightarrow> user_create \<Rightarrow> (error + token) \<times> world" where
  "register SECRET_KEY now new_id salt w usr =
     (case find_one (\<lambda>u. u_email u = uc_email usr) (users w) of
        Some existing_user \<Rightarrow> (Inl (HTTPException 400 ''Email already registered''), w)
      | None \<Rightarrow>
          let hashed = get_password_hash salt (uc_password usr);
              user_dict = \<lparr>u_id = new_id, u_email = uc_email usr,
                           u_full_name = uc_full_name usr, u_created_at = now,
                           hashed_password = hashed\<rparr>;
              w' = w\<lparr>users := users w @ [user_dict]\<rparr>;
              access_token_expires = minutes ACCESS_TOKEN_EXPIRE_MINUTES;
              tok = create_access_token SECRET_KEY now new_id (Some access_token_expires)
          in (Inr \<lparr>access_token = tok, token_type = ''bearer''\<rparr>, w'))"

definition login :: "string \<Rightarrow> int \<Rightarrow> world \<Rightarrow> user_login \<Rightarrow> error + token" where
  "login SECRET_KEY now w usr =
     (case find_one (\<lambda>u. u_email u = ul_email usr) (users w) of
        None \<Rightarrow> Inl (HTTPException 401 ''Incorrect email or password'')
      | Some u \<Rightarrow>
          if \<not> verify_password (ul_password usr) (hashed_password u)
          then Inl (HTTPException 401 ''Incorrect email or password'')
          else
            let access_token_expires = minutes ACCESS_TOKEN_EXPIRE_MINUTES;
                tok = create_access_token SECRET_KEY now (u_id u) (Some access_token_expires)
            in Inr \<lparr>access_token = tok, token_type = ''bearer''\<rparr>)"

definition get_me :: "user \<Rightarrow> user" where
  "get_me current_user = current_user"

subsection \<open>Study materials\<close>

definition allowed_extensions :: "string set" where
  "allowed_extensions = {''pdf'', ''docx'', ''pptx'', ''jpg'', ''jpeg'', ''png'', ''txt''}"

definition get_mime_type :: "string \<Rightarrow> string" where
  "get_mime_type file_type =
     (case map_of
        [(''pdf'', ''application/pdf''),
         (''docx'', ''application/vnd.openxmlformats-officedocument.wordprocessingml.document''),
         (''pptx'', ''application/vnd.openxmlformats-officedocument.presentationml.presentation''),
         (''jpg'', ''image/jpeg''),
         (''jpeg'', ''image/jpeg''),
         (''png'', ''image/png''),
         (''txt'', ''text/plain'')] (lower file_type) of
        None \<Rightarrow> ''application/octet-stream''
      | Some mime \<Rightarrow> mime)"

text \<open>
  \<open>extract_text_from_file\<close>: one call to the model, whose failure becomes status 500.
\<close>

definition extract_text_from_file ::
  "string llm_reply \<Rightarrow> world \<Rightarrow> string \<Rightarrow> string \<Rightarrow> (error + string) \<times> world" where
  "extract_text_from_file reply w file_path file_type =
     (let w' = w\<lparr>llm_calls := llm_calls w @ [ExtractText file_path (get_mime_type file_type)]\<rparr>
      in case reply of
           LlmError msg \<Rightarrow> (Inl (HTTPException 500 (''Error extracting text: '' @ msg)), w')
         | LlmReply response \<Rightarrow> (Inr response, w'))"

text \<open>The answer of \<open>upload_material\<close>.\<close>

record upload_result =
  message :: string
  material_id :: string

text \<open>
  \<open>upload_material\<close>; \<open>file_id\<close> and \<open>new_id\<close> are the identifiers drawn for the stored
  file and for the material.
\<close>

definition upload_material ::
  "int \<Rightarrow> string \<Rightarrow> string \<Rightarrow> string llm_reply \<Rightarrow> world \<Rightarrow> string \<Rightarrow> upload_file \<Rightarrow> user
     \<Rightarrow> (error + upload_result) \<times> world" where
  "upload_material now file_id new_id reply w ttl file current_user =
     (let file_extension = lower (last (split (filename file) CHR ''.''))
      in if file_extension \<notin> allowed_extensions
         then (Inl (HTTPException 400 ''File type not supported''), w)
         else
           let file_path = ''uploads/'' @ file_id @ ''.'' @ file_extension;
               w1 = w\<lparr>uploads := (uploads w)(file_path \<mapsto> content file)\<rparr>
           in case extract_text_from_file reply w1 file_path file_extension of
                (Inl err, w2) \<Rightarrow> (Inl err, w2)
              | (Inr extracted_text, w2) \<Rightarrow>
                  let material = \<lparr>m_id = new_id, m_user_id = u_id current_user, m_title = ttl,
                                    m_file_type = file_extension,
                                    m_extracted_text = extracted_text, m_uploaded_at = now\<rparr>;
                      w3 = w2\<lparr>study_materials := study_materials w2 @ [material]\<rparr>
                  in (Inr \<lparr>message = ''Material uploaded successfully'',
                            material_id = new_id\<rparr>, w3))"

definition get_materials :: "world \<Rightarrow> user \<Rightarrow> study_material list" where
  "get_materials w current_user =
     filter (\<lambda>m. m_user_id m = u_id current_user) (study_materials w)"

text \<open>
  The lookup every material-scoped handler starts with:
  \<open>db.study_materials.find_one({"id": material_id, "user_id": current_user.id})\<close>.
\<close>

definition find_material :: "world \<Rightarrow> string \<Rightarrow> user \<Rightarrow> study_material option" where
  "find_material w mid current_user =
     find_one (\<lambda>m. m_id m = mid \<and> m_user_id m = u_id current_user) (study_materials w)"

definition get_material :: "world \<Rightarrow> string \<Rightarrow> user \<Rightarrow> error + study_material" where
  "get_material w mid current_user =
     (case find_material w mid current_user of
        None \<Rightarrow> Inl (HTTPException 404 ''Material not found'')
      | Some material \<Rightarrow> Inr material)"

subsection \<open>Quizzes\<close>

text \<open>
  The loop of \<open>generate_quiz_with_ai\<close> over the parsed questions. A missing key raises
  \<open>KeyError\<close>, which the enclosing \<open>except Exception\<close> turns into status 500. The \<open>i\<close>-th
  question gets the identifier \<open>uuid4 i\<close>.
\<close>

fun build_questions ::
  "(nat \<Rightarrow> string) \<Rightarrow> nat \<Rightarrow> string \<Rightarrow> raw_question list \<Rightarrow> string + quiz_question list" where
  "build_questions uuid4 i question_type [] = Inr []"
| "build_questions uuid4 i question_type (q # qs) =
     (case (rq_question q, rq_answer q, rq_explanation q) of
        (Some qu, Some an, Some ex) \<Rightarrow>
          (case build_questions uuid4 (Suc i) question_type qs of
             Inl key \<Rightarrow> Inl key
           | Inr questions \<Rightarrow>
               Inr (\<lparr>q_id = uuid4 i, q_question = qu, q_options = rq_options q,
                      q_answer = an, q_explanation = ex,
                      q_question_type = question_type\<rparr> # questions))
      | (None, _, _) \<Rightarrow> Inl ''question''
      | (Some qu, None, _) \<Rightarrow> Inl ''answer''
      | (Some qu, Some an, None) \<Rightarrow> Inl ''explanation'')"

definition generate_quiz_with_ai ::
  "(nat \<Rightarrow> string) \<Rightarrow> raw_question list llm_reply \<Rightarrow> world \<Rightarrow> string \<Rightarrow> string \<Rightarrow> string
     \<Rightarrow> (error + quiz_question list) \<times> world" where
  "generate_quiz_with_ai uuid4 reply w text quiz_type question_type =
     (let w' = w\<lparr>llm_calls := llm_calls w @ [QuizPrompt (take 8000 text) quiz_type question_type]\<rparr>
      in case reply of
           LlmError msg \<Rightarrow> (Inl (HTTPException 500 (''Error generating quiz: '' @ msg)), w')
         | LlmReply quiz_data \<Rightarrow>
             (case build_questions uuid4 0 question_type quiz_data of
                Inl key \<Rightarrow>
                  (Inl (HTTPException 500 (''Error generating quiz: '' @ key_error_str key)), w')
              | Inr questions \<Rightarrow> (Inr questions, w')))"

text \<open>
  \<open>generate_quiz\<close>; the questions take the identifiers \<open>uuid4 0\<close>, \<open>uuid4 1\<close>, ... and
  \<open>new_id\<close> is the one drawn for the quiz.
\<close>

definition generate_quiz ::
  "int \<Rightarrow> (nat \<Rightarrow> string) \<Rightarrow> string \<Rightarrow> raw_question list llm_reply \<Rightarrow> world
     \<Rightarrow> string \<Rightarrow> string \<Rightarrow> string \<Rightarrow> user \<Rightarrow> (error + quiz) \<times> world" where
  "generate_quiz now uuid4 new_id reply w mid quiz_type question_type current_user =
     (case find_material w mid current_user of
        None \<Rightarrow> (Inl (HTTPException 404 ''Material not found''), w)
      | Some material \<Rightarrow>
          (case generate_quiz_with_ai uuid4 reply w (m_extracted_text material)
                  quiz_type question_type of
             (Inl err, w1) \<Rightarrow> (Inl err, w1)
           | (Inr questions, w1) \<Rightarrow>
               let time_limit = (if question_type = ''mcq'' then 15 else 30);
                   qz = \<lparr>qz_id = new_id, qz_material_id = mid, qz_user_id = u_id current_user,
                          qz_title = m_title material @ '' - '' @ title quiz_type @ '' Quiz'',
                          qz_questions = questions, qz_quiz_type = quiz_type,
                          qz_time_limit = time_limit, qz_created_at = now\<rparr>
               in (Inr qz, w1\<lparr>quizzes := quizzes w1 @ [qz]\<rparr>)))"

text \<open>The answer of \<open>submit_quiz\<close>.\<close>

record submit_result =
  score :: int
  correct_answers :: nat
  total_questions :: nat

definition find_quiz :: "world \<Rightarrow> string \<Rightarrow> user \<Rightarrow> quiz option" where
  "find_quiz w quiz_id current_user =
     find_one (\<lambda>q. qz_id q = quiz_id \<and> qz_user_id q = u_id current_user) (quizzes w)"

definition submit_quiz ::
  "world \<Rightarrow> string \<Rightarrow> quiz_response \<Rightarrow> user \<Rightarrow> (error + submit_result) \<times> world" where
  "submit_quiz w quiz_id response current_user =
     (case find_quiz w quiz_id current_user of
        None \<Rightarrow> (Inl (HTTPException 404 ''Quiz not found''), w)
      | Some qz \<Rightarrow>
          let total = length (qz_questions qz);
              correct = count_correct (qz_questions qz) (qr_user_answers response)
          in case compute_score correct total of
               Inl err \<Rightarrow> (Inl err, w)
             | Inr sc \<Rightarrow>
                 (Inr \<lparr>score = sc, correct_answers = correct, total_questions = total\<rparr>,
                  w\<lparr>quiz_responses := quiz_responses w @ [response\<lparr>qr_score := Some sc\<rparr>]\<rparr>))"

subsection \<open>Flashcards\<close>

text \<open>The loop of \<open>generate_flashcards_with_ai\<close> over the parsed flashcards.\<close>

fun build_flashcard_data :: "raw_flashcard list \<Rightarrow> string + flashcard_data list" where
  "build_flashcard_data [] = Inr []"
| "build_flashcard_data (fc # fcs) =
     (case (rf_question fc, rf_answer fc, rf_explanation fc) of
        (Some qu, Some an, Some ex) \<Rightarrow>
          (case build_flashcard_data fcs of
             Inl key \<Rightarrow> Inl key
           | Inr cards \<Rightarrow>
               Inr (\<lparr>fd_question = qu, fd_answer = an, fd_explanation = ex\<rparr> # cards))
      | (None, _, _) \<Rightarrow> Inl ''question''
      | (Some qu, None, _) \<Rightarrow> Inl ''answer''
      | (Some qu, Some an, None) \<Rightarrow> Inl ''explanation'')"

definition generate_flashcards_with_ai ::
  "raw_flashcard list llm_reply \<Rightarrow> world \<Rightarrow> string \<Rightarrow> (error + flashcard_data list) \<times> world" where
  "generate_flashcards_with_ai reply w text =
     (let w' = w\<lparr>llm_calls := llm_calls w @ [FlashcardPrompt (take 8000 text)]\<rparr>
      in case reply of
           LlmError msg \<Rightarrow> (Inl (HTTPException 500 (''Error generating flashcards: '' @ msg)), w')
         | LlmReply parsed \<Rightarrow>
             (case build_flashcard_data parsed of
                Inl key \<Rightarrow>
                  (Inl (HTTPException 500
                         (''Error generating flashcards: '' @ key_error_str key)), w')
              | Inr cards \<Rightarrow> (Inr cards, w')))"

text \<open>The loop of \<open>generate_flashcards\<close> that makes a \<open>Flashcard\<close> of each dictionary.\<close>

fun make_flashcards ::
  "int \<Rightarrow> (nat \<Rightarrow> string) \<Rightarrow> nat \<Rightarrow> string \<Rightarrow> string \<Rightarrow> flashcard_data list \<Rightarrow> flashcard list" where
  "make_flashcards now uuid4 i mid uid [] = []"
| "make_flashcards now uuid4 i mid uid (d # ds) =
     \<lparr>fc_id = uuid4 i, fc_material_id = mid, fc_user_id = uid, fc_question = fd_question d,
      fc_answer = fd_answer d, fc_explanation = fd_explanation d, fc_created_at = now\<rparr>
       # make_flashcards now uuid4 (Suc i) mid uid ds"

text \<open>
  \<open>db.flashcards.insert_many\<close>: the driver raises \<open>TypeError\<close> on an empty list of
  documents.
\<close>

definition insert_many_flashcards :: "world \<Rightarrow> flashcard list \<Rightarrow> error + world" where
  "insert_many_flashcards w documents =
     (if documents = [] then Inl TypeError
      else Inr (w\<lparr>flashcards := flashcards w @ documents\<rparr>))"

definition generate_flashcards ::
  "int \<Rightarrow> (nat \<Rightarrow> string) \<Rightarrow> raw_flashcard list llm_reply \<Rightarrow> world \<Rightarrow> string \<Rightarrow> user
     \<Rightarrow> (error + flashcard list) \<times> world" where
  "generate_flashcards now uuid4 reply w mid current_user =
     (case find_material w mid current_user of
        None \<Rightarrow> (Inl (HTTPException 404 ''Material not found''), w)
      | Some material \<Rightarrow>
          (case generate_flashcards_with_ai reply w (m_extracted_text material) of
             (Inl err, w1) \<Rightarrow> (Inl err, w1)
           | (Inr cards, w1) \<Rightarrow>
               let cards' = make_flashcards now uuid4 0 mid (u_id current_user) cards
               in case insert_many_flashcards w1 cards' of
                    Inl err \<Rightarrow> (Inl err, w1)
                  | Inr w2 \<Rightarrow> (Inr cards', w2)))"

definition get_flashcards :: "world \<Rightarrow> string \<Rightarrow> user \<Rightarrow> flashcard list" where
  "get_flashcards w mid current_user =
     filter (\<lambda>fc. fc_material_id fc = mid \<and> fc_user_id fc = u_id current_user) (flashcards w)"

subsection \<open>Chat\<close>

record chat_result =
  cr_question :: string
  cr_answer :: string

definition ask_question ::
  "string llm_reply \<Rightarrow> world \<Rightarrow> string \<Rightarrow> string \<Rightarrow> user \<Rightarrow> (error + chat_result) \<times> world" where
  "ask_question reply w mid question current_user =
     (case find_material w mid current_user of
        None \<Rightarrow> (Inl (HTTPException 404 ''Material not found''), w)
      | Some material \<Rightarrow>
          let session_id = ''chat_'' @ mid @ ''_'' @ u_id current_user;
              w' = w\<lparr>llm_calls := llm_calls w @
                     [ChatPrompt session_id (take 6000 (m_extracted_text material)) question]\<rparr>
          in case reply of
               LlmError msg \<Rightarrow>
                 (Inl (HTTPException 500 (''Error processing question: '' @ msg)), w')
             | LlmReply response \<Rightarrow>
                 (Inr \<lparr>cr_question = question, cr_answer = response\<rparr>, w'))"

subsection \<open>The grading rule in the words of the specification\<close>








subsection \<open>A small world for concrete runs\<close>

definition alice_doc :: user_doc where
  "alice_doc = \<lparr>u_id = ''u-alice'', u_email = ''alice@example.org'', u_full_name = ''Alice'',
                 u_created_at = 0, hashed_password = Bcrypt ''salt-a'' ''wonderland''\<rparr>"

definition bob_doc :: user_doc where
  "bob_doc = \<lparr>u_id = ''u-bob'', u_email = ''bob@example.org'', u_full_name = ''Bob'',
               u_created_at = 5, hashed_password = Bcrypt ''salt-b'' ''builder''\<rparr>"

definition alice :: user where
  "alice = user.truncate alice_doc"

definition bob :: user where
  "bob = user.truncate bob_doc"

definition alice_notes :: study_material where
  "alice_notes = \<lparr>m_id = ''m-1'', m_user_id = ''u-alice'', m_title = ''Notes'', m_file_type = ''txt'',
             m_extracted_text = ''Paris is the capital of France.'', m_uploaded_at = 10\<rparr>"

definition bob_notes :: study_material where
  "bob_notes = \<lparr>m_id = ''m-2'', m_user_id = ''u-bob'', m_title = ''Plan'', m_file_type = ''pdf'',
                 m_extracted_text = ''Measure twice, cut once.'', m_uploaded_at = 12\<rparr>"

definition alice_card :: flashcard where
  "alice_card = \<lparr>fc_id = ''f-1'', fc_material_id = ''m-1'', fc_user_id = ''u-alice'',
                  fc_question = ''Capital of France?'', fc_answer = ''Paris'',
                  fc_explanation = ''From the notes.'', fc_created_at = 25\<rparr>"

definition bob_card :: flashcard where
  "bob_card = \<lparr>fc_id = ''f-2'', fc_material_id = ''m-2'', fc_user_id = ''u-bob'',
                fc_question = ''How often to measure?'', fc_answer = ''Twice'',
                fc_explanation = ''From the plan.'', fc_created_at = 26\<rparr>"

definition raw_card :: raw_flashcard where
  "raw_card = \<lparr>rf_question = Some ''Capital of France?'', rf_answer = Some ''Paris'',
                rf_explanation = Some ''From the notes.''\<rparr>"

definition question_capital :: quiz_question where
  "question_capital = \<lparr>q_id = ''q-1'', q_question = ''What is the capital of France?'',
                        q_options = None, q_answer = CHR 0xA0 # ''Paris '',
                        q_explanation = ''See the notes.'',
                        q_question_type = ''short_answer''\<rparr>"

definition question_sum :: quiz_question where
  "question_sum = \<lparr>q_id = ''q-2'', q_question = ''What is 2 + 2?'',
                    q_options = None, q_answer = ''4'', q_explanation = ''Arithmetic.'',
                    q_question_type = ''short_answer''\<rparr>"

definition quiz_two :: quiz where
  "quiz_two = \<lparr>qz_id = ''z-2'', qz_material_id = ''m-1'', qz_user_id = ''u-alice'',
                qz_title = ''Notes - Practice Quiz'',
                qz_questions = [question_capital, question_sum],
                qz_quiz_type = ''practice'', qz_time_limit = 30, qz_created_at = 20\<rparr>"

text \<open>
  A question whose answer is the word Elysee with its two accents (0xC9 and 0xE9), and a
  pair that submits it in the other case, followed by the blank 0x85.
\<close>

definition question_accent :: quiz_question where
  "question_accent = \<lparr>q_id = ''q-3'', q_question = ''Where does the president live?'',
                       q_options = None, q_answer = CHR 0xC9 # ''lys'' @ [CHR 0xE9] @ ''e'',
                       q_explanation = ''General knowledge.'',
                       q_question_type = ''short_answer''\<rparr>"

definition pair_accent :: user_answer where
  "pair_accent = \<lparr>ua_question_id = ''q-3'',
                   ua_answer = ''the '' @ [CHR 0xE9] @ ''LYS'' @ [CHR 0xC9] @ ''E'' @ [CHR 0x85]\<rparr>"

definition quiz_accent :: quiz where
  "quiz_accent = quiz_two\<lparr>qz_id := ''z-3'', qz_questions := [question_accent]\<rparr>"

definition quiz_one :: quiz where
  "quiz_one = quiz_two\<lparr>qz_id := ''z-1'', qz_questions := [question_sum]\<rparr>"

definition quiz_none :: quiz where
  "quiz_none = quiz_two\<lparr>qz_id := ''z-0'', qz_questions := []\<rparr>"

text \<open>
  A quiz of fifty questions with the identifiers \<open>q\<close>, \<open>qq\<close>, \<open>qqq\<close>, ..., and the pair
  that submits the stored answer of a question.
\<close>

definition quiz_fifty :: quiz where
  "quiz_fifty =
     quiz_two\<lparr>qz_id := ''z-50'',
               qz_questions :=
                 map (\<lambda>n. question_sum\<lparr>q_id := replicate n CHR ''q''\<rparr>) [1..<51]\<rparr>"

definition own_answer :: "quiz_question \<Rightarrow> user_answer" where
  "own_answer q = \<lparr>ua_question_id = q_id q, ua_answer = q_answer q\<rparr>"

definition world0 :: world where
  "world0 = \<lparr>users = [alice_doc, bob_doc], study_materials = [alice_notes, bob_notes],
              quizzes = [quiz_two, quiz_one, quiz_none, quiz_accent, quiz_fifty],
              flashcards = [alice_card, bob_card], quiz_responses = [],
              uploads = Map.empty, llm_calls = []\<rparr>"

definition carol_form :: user_create where
  "carol_form = \<lparr>uc_email = ''carol@example.org'', uc_password = ''looking-glass'',
                  uc_full_name = ''Carol''\<rparr>"

definition world_carol :: world where
  "world_carol = snd (register ''key'' 100 ''u-carol'' ''salt-c'' world0 carol_form)"

definition alice_token :: jwt where
  "alice_token = Jwt ''key'' \<lparr>sub = Some ''u-alice'', exp = Some 1800\<rparr>"

text \<open>The identifiers drawn for new flashcards: \<open>f\<close>, \<open>ff\<close>, \<open>fff\<close>, ...\<close>

definition card_ids :: "nat \<Rightarrow> string" where
  "card_ids i = replicate (Suc i) CHR ''f''"

definition pair_paris :: user_answer where
  "pair_paris = \<lparr>ua_question_id = ''q-1'', ua_answer = '' It is PARIS. ''\<rparr>"

definition pair_four :: user_answer where
  "pair_four = \<lparr>ua_question_id = ''q-2'', ua_answer = ''4''\<rparr>"

definition pair_unknown :: user_answer where
  "pair_unknown = \<lparr>ua_question_id = ''q-9'', ua_answer = ''4''\<rparr>"

definition response_of :: "string \<Rightarrow> user_answer list \<Rightarrow> quiz_response" where
  "response_of quiz_id pairs =
     \<lparr>qr_quiz_id = quiz_id, qr_user_answers = pairs, qr_score = None, qr_completed_at = 30\<rparr>"

section \<open>Properties\<close>

subsection \<open>Strings\<close>


subsection \<open>The grading loop\<close>

lemma grade_loop_count:
  "grade_loop questions uas n = n + length (filter (answer_correct questions) uas)"
  by (induction uas arbitrary: n) simp_all

lemma count_correct_filter:
  "count_correct questions uas = length (filter (answer_correct questions) uas)"
  by (simp add: count_correct_def grade_loop_count)


lemma find_question_distinct:
  assumes "distinct (map q_id questions)" and "q \<in> set questions"
  shows "find_question questions (q_id q) = Some q"
  using assms
proof (induction questions)
  case Nil
  then show ?case by simp
next
  case (Cons p ps)
  show ?case
  proof (cases "p = q")
    case True
    then show ?thesis by (simp add: find_question_def)
  next
    case False
    with Cons.prems have "q \<in> set ps" and "q_id p \<noteq> q_id q" by auto
    with Cons show ?thesis by (simp add: find_question_def)
  qed
qed

lemma find_question_Some:
  "find_question questions i = Some q \<Longrightarrow> q \<in> set questions \<and> q_id q = i"
  by (auto simp: find_question_def find_Some_iff)

subsection \<open>Rounding to binary64\<close>

lemma bit_length_less: "n < 2 ^ bit_length n"
proof (induction n rule: bit_length.induct)
  case (1 n)
  show ?case
  proof (cases "n = 0")
    case True
    then show ?thesis by simp
  next
    case False
    with 1 have "n div 2 < 2 ^ bit_length (n div 2)" by simp
    then have "n < 2 * 2 ^ bit_length (n div 2)" by linarith
    with False show ?thesis by (subst bit_length.simps) simp
  qed
qed

lemma bit_length_le: "n < 2 ^ j \<Longrightarrow> bit_length n \<le> j"
proof (induction n arbitrary: j rule: bit_length.induct)
  case (1 n)
  show ?case
  proof (cases "n = 0")
    case True
    then show ?thesis by (simp add: bit_length.simps)
  next
    case False
    with "1.prems" obtain i where j: "j = Suc i" by (cases j) auto
    with "1.prems" have "n div 2 < 2 ^ i" by simp
    with 1 False have "bit_length (n div 2) \<le> i" by simp
    with False j show ?thesis by (subst bit_length.simps) simp
  qed
qed

lemma bit_length_gt: "2 ^ j \<le> n \<Longrightarrow> j < bit_length n"
proof -
  assume "2 ^ j \<le> n"
  also have "n < 2 ^ bit_length n" by (rule bit_length_less)
  finally have "(2::nat) ^ j < 2 ^ bit_length n" .
  then show ?thesis by simp
qed

lemma round_half_even_le:
  assumes "0 < den" and "num \<le> n * den"
  shows "round_half_even num den \<le> n"
proof -
  from assms have q: "num div den \<le> n"
    by (metis div_le_mono div_mult_self_is_m)
  show ?thesis
  proof (cases "num div den = n")
    case True
    have "num = (num div den) * den + num mod den" by simp
    with True assms(2) have "num mod den = 0" by (metis add_le_same_cancel1 le_zero_eq)
    with assms(1) q show ?thesis by (simp add: round_half_even_def Let_def)
  next
    case False
    with q have "num div den + 1 \<le> n" by simp
    with q show ?thesis by (simp add: round_half_even_def Let_def)
  qed
qed

lemma round_half_even_den1 [simp]: "round_half_even num 1 = num"
  by (simp add: round_half_even_def)

lemma of_nat_div_le_rat: "(of_nat (a div b) :: rat) \<le> of_nat a / of_nat b"
proof -
  have "(of_nat (a div b) :: rat) = of_int \<lfloor>(of_nat a :: rat) / of_nat b\<rfloor>"
    by (simp add: floor_divide_of_nat_eq)
  also have "\<dots> \<le> of_nat a / of_nat b" by (rule of_int_floor_le)
  finally show ?thesis .
qed

lemma floor_log2_le:
  assumes a: "0 < a" and b: "0 < b"
    and lt: "(of_nat a :: rat) / of_nat b < 2 powi (k + 1)"
  shows "floor_log2 a b \<le> k"
proof (cases "b \<le> a")
  case True
  with b have "(1 :: rat) \<le> of_nat a / of_nat b" by (simp add: le_divide_eq)
  with lt have one: "(1 :: rat) < 2 powi (k + 1)" by simp
  have k: "0 \<le> k"
  proof (rule ccontr)
    assume "\<not> 0 \<le> k"
    then have "k + 1 \<le> 0" by simp
    then have "(2 :: rat) powi (k + 1) \<le> 2 powi 0" by (rule power_int_increasing) simp
    with one show False by simp
  qed
  have "(of_nat (a div b) :: rat) < 2 powi (k + 1)"
    using of_nat_div_le_rat [of a b] lt by linarith
  also from k have "(2 :: rat) powi (k + 1) = of_nat (2 ^ nat (k + 1))"
    by (simp add: power_int_nonneg_exp)
  finally have "a div b < 2 ^ nat (k + 1)" by (simp only: of_nat_less_iff)
  then have "bit_length (a div b) \<le> nat (k + 1)" by (rule bit_length_le)
  with True k show ?thesis by (simp add: floor_log2_def)
next
  case False
  show ?thesis
  proof (cases "0 \<le> k")
    case True
    with False show ?thesis by (simp add: floor_log2_def)
  next
    case neg: False
    define j where "j = nat (- k - 1)"
    from neg have kj: "k + 1 = - int j" by (simp add: j_def)
    from lt b have "(of_nat a :: rat) < 2 powi (k + 1) * of_nat b"
      by (simp add: divide_less_eq)
    moreover have "(2 :: rat) powi (k + 1) = inverse (2 ^ j)"
      unfolding kj by (simp add: power_int_minus)
    ultimately have "(of_nat a :: rat) < inverse (2 ^ j) * of_nat b" by simp
    then have "(of_nat a :: rat) * 2 ^ j < of_nat b"
      by (simp add: field_simps)
    then have "(of_nat (a * 2 ^ j) :: rat) < of_nat b" by simp
    then have "a * 2 ^ j < b" by (simp only: of_nat_less_iff)
    then have "2 ^ j * a \<le> b - 1" by (simp add: mult.commute)
    with a have "2 ^ j \<le> (b - 1) div a" by (simp add: less_eq_div_iff_mult_less_eq)
    then have "j < bit_length ((b - 1) div a)" by (rule bit_length_gt)
    with False neg show ?thesis by (simp add: floor_log2_def j_def)
  qed
qed

lemma pow2_split: "e \<le> j \<Longrightarrow> (2 :: rat) powi j = 2 ^ nat (j - e) * 2 powi e"
proof -
  assume "e \<le> j"
  then have "j = int (nat (j - e)) + e" by simp
  then have "(2 :: rat) powi j = 2 powi (int (nat (j - e)) + e)" by simp
  also have "\<dots> = 2 powi int (nat (j - e)) * 2 powi e" by (rule power_int_add) simp
  finally show ?thesis by (simp only: power_int_of_nat)
qed

lemma round64_le:
  assumes b: "0 < b" and c: "c < 2 ^ 53" and j: "- 1074 \<le> j"
    and le: "(of_nat a :: rat) / of_nat b * 2 powi s \<le> of_nat c * 2 powi j"
  shows "valf (round64 a b s) \<le> of_nat c * 2 powi j"
proof (cases "a = 0")
  case True
  then show ?thesis by (simp add: round64_def)
next
  case False
  define e where "e = max (floor_log2 a b + s - 52) (- 1074)"
  have pos: "(0 :: rat) < 2 powi i" for i by simp
  have ej: "e \<le> j"
  proof -
    from c have "(of_nat c :: rat) < 2 ^ 53"
      using of_nat_less_iff [of c "2 ^ 53", where 'a = rat] by simp
    then have "(of_nat c :: rat) * 2 powi j < 2 ^ 53 * 2 powi j"
      by (rule mult_strict_right_mono) simp
    with le have "(of_nat a :: rat) / of_nat b * 2 powi s < 2 ^ 53 * 2 powi j"
      by (rule le_less_trans)
    also have "(2 :: rat) ^ 53 * 2 powi j = 2 powi (53 + j - s) * 2 powi s"
    proof -
      have "(2 :: rat) powi (53 + j - s) * 2 powi s = 2 powi ((53 + j - s) + s)"
        by (rule power_int_add [symmetric]) simp
      also have "\<dots> = 2 powi (53 + j)" by simp
      also have "\<dots> = 2 powi 53 * 2 powi j" by (rule power_int_add) simp
      finally show ?thesis by simp
    qed
    finally have "(of_nat a :: rat) / of_nat b < 2 powi (53 + j - s)"
      using pos [of s] by (simp only: mult_less_cancel_right_pos)
    moreover have "53 + j - s = (52 + j - s) + 1" by simp
    ultimately have "(of_nat a :: rat) / of_nat b < 2 powi ((52 + j - s) + 1)"
      by (simp only:)
    with False b have "floor_log2 a b \<le> 52 + j - s" by (intro floor_log2_le) simp_all
    with j show ?thesis by (simp add: e_def)
  qed
  from False have r: "round64 a b s =
      (if e \<le> s then (round_half_even (a * 2 ^ nat (s - e)) b, e)
       else (round_half_even a (b * 2 ^ nat (e - s)), e))"
    by (simp add: round64_def e_def Let_def)
  define d where "d = nat (j - e)"
  from ej have pj: "(2 :: rat) powi j = 2 ^ d * 2 powi e"
    unfolding d_def by (rule pow2_split)
  show ?thesis
  proof (cases "e \<le> s")
    case True
    define t where "t = nat (s - e)"
    from True have ps: "(2 :: rat) powi s = 2 ^ t * 2 powi e"
      unfolding t_def by (rule pow2_split)
    from le have "(of_nat a :: rat) / of_nat b * 2 ^ t * 2 powi e \<le> of_nat c * 2 ^ d * 2 powi e"
      by (simp add: ps pj mult.assoc)
    then have "(of_nat a :: rat) / of_nat b * 2 ^ t \<le> of_nat c * 2 ^ d"
      using pos [of e] by (simp only: mult_le_cancel_right_pos)
    with b have "(of_nat a :: rat) * 2 ^ t \<le> of_nat c * 2 ^ d * of_nat b"
      by (simp add: field_simps)
    then have "(of_nat (a * 2 ^ t) :: rat) \<le> of_nat (c * 2 ^ d * b)" by simp
    then have "a * 2 ^ t \<le> c * 2 ^ d * b" by (simp only: of_nat_le_iff)
    with b have "round_half_even (a * 2 ^ t) b \<le> c * 2 ^ d"
      by (intro round_half_even_le) simp_all
    then have "(of_nat (round_half_even (a * 2 ^ t) b) :: rat) \<le> of_nat (c * 2 ^ d)"
      by (simp only: of_nat_le_iff)
    then have "(of_nat (round_half_even (a * 2 ^ t) b) :: rat) * 2 powi e
        \<le> of_nat (c * 2 ^ d) * 2 powi e"
      using pos [of e] by (simp only: mult_le_cancel_right_pos)
    moreover from True have "round64 a b s = (round_half_even (a * 2 ^ t) b, e)"
      by (simp add: r t_def)
    ultimately show ?thesis by (simp add: pj mult.assoc)
  next
    case es: False
    define u where "u = nat (e - s)"
    from es have pe: "(2 :: rat) powi e = 2 ^ u * 2 powi s"
      unfolding u_def by (intro pow2_split) simp
    from le have "(of_nat a :: rat) / of_nat b * 2 powi s \<le> of_nat c * 2 ^ d * 2 ^ u * 2 powi s"
      by (simp add: pe pj mult.assoc)
    then have "(of_nat a :: rat) / of_nat b \<le> of_nat c * 2 ^ d * 2 ^ u"
      using pos [of s] by (simp only: mult_le_cancel_right_pos)
    with b have "(of_nat a :: rat) \<le> of_nat c * 2 ^ d * 2 ^ u * of_nat b"
      by (simp add: field_simps)
    then have "(of_nat a :: rat) \<le> of_nat (c * 2 ^ d * (b * 2 ^ u))" by (simp add: mult_ac)
    then have "a \<le> c * 2 ^ d * (b * 2 ^ u)" by (simp only: of_nat_le_iff)
    with b have "round_half_even a (b * 2 ^ u) \<le> c * 2 ^ d"
      by (intro round_half_even_le) simp_all
    then have "(of_nat (round_half_even a (b * 2 ^ u)) :: rat) \<le> of_nat (c * 2 ^ d)"
      by (simp only: of_nat_le_iff)
    then have "(of_nat (round_half_even a (b * 2 ^ u)) :: rat) * 2 powi e
        \<le> of_nat (c * 2 ^ d) * 2 powi e"
      using pos [of e] by (simp only: mult_le_cancel_right_pos)
    moreover from es have "round64 a b s = (round_half_even a (b * 2 ^ u), e)"
      by (simp add: r u_def)
    ultimately show ?thesis by (simp add: pj mult.assoc)
  qed
qed

lemma valf_nonneg_exp: "0 \<le> e \<Longrightarrow> valf (m, e) = of_nat (m * 2 ^ nat e)"
  by (simp add: power_int_nonneg_exp)

lemma valf_neg_exp: "e < 0 \<Longrightarrow> valf (m, e) = of_nat m / of_nat (2 ^ nat (- e))"
proof -
  assume "e < 0"
  then have "e = - int (nat (- e))" by simp
  then have "(2 :: rat) powi e = 2 powi (- int (nat (- e)))" by simp
  also have "\<dots> = inverse (2 ^ nat (- e))" by (simp only: power_int_minus power_int_of_nat)
  finally show ?thesis by (simp add: divide_inverse)
qed

lemma not_overflows:
  assumes "valf x < 2 ^ 1024"
  shows "\<not> overflows x"
proof (cases x)
  case (Pair m e)
  show ?thesis
  proof
    assume "overflows x"
    with Pair have e: "0 \<le> e" and big: "2 ^ 1024 \<le> m * 2 ^ nat e" by simp_all
    from big have "(of_nat (2 ^ 1024) :: rat) \<le> of_nat (m * 2 ^ nat e)"
      by (simp only: of_nat_le_iff)
    with e have "(of_nat (2 ^ 1024) :: rat) \<le> valf (m, e)" by (simp only: valf_nonneg_exp)
    with assms Pair show False by simp
  qed
qed

lemma py_int_floor: "py_int (Some x) = Inr \<lfloor>valf x\<rfloor>"
proof (cases x)
  case (Pair m e)
  show ?thesis
  proof (cases "0 \<le> e")
    case True
    then have "\<lfloor>valf (m, e)\<rfloor> = int (m * 2 ^ nat e)"
      by (simp only: valf_nonneg_exp floor_of_nat)
    with True Pair show ?thesis by simp
  next
    case False
    then have "\<lfloor>valf (m, e)\<rfloor> = int (m div 2 ^ nat (- e))"
      by (simp only: valf_neg_exp floor_divide_of_nat_eq)
    with False Pair show ?thesis by simp
  qed
qed

lemma valf_nonneg: "0 \<le> valf x"
  by (cases x) simp

text \<open>Division of two counts, when the quotient is at most \<open>2 ^ j\<close>.\<close>

lemma py_truediv_le:
  assumes b: "0 < b" and le: "a \<le> 2 ^ j * b" and j: "j \<le> 1000"
  shows "\<exists>x. py_truediv a b = Inr x \<and> valf x \<le> 2 ^ j"
proof -
  from le have "(of_nat a :: rat) \<le> of_nat (2 ^ j * b)" by (simp only: of_nat_le_iff)
  with b have "(of_nat a :: rat) / of_nat b \<le> 2 ^ j" by (simp add: field_simps)
  then have "(of_nat a :: rat) / of_nat b * 2 powi 0 \<le> of_nat 1 * 2 powi int j" by simp
  with b have v: "valf (round64 a b 0) \<le> of_nat 1 * 2 powi int j"
    by (intro round64_le) simp_all
  then have v': "valf (round64 a b 0) \<le> 2 ^ j" by simp
  also from j have "(2 :: rat) ^ j \<le> 2 ^ 1000" by (intro power_increasing) simp_all
  also have "(2 :: rat) ^ 1000 < 2 ^ 1024" by (intro power_strict_increasing) simp_all
  finally have "\<not> overflows (round64 a b 0)" by (rule not_overflows)
  with b v' show ?thesis by (simp add: py_truediv_def binary64_def)
qed

text \<open>Multiplying a float that is at most \<open>2 ^ j\<close> by \<open>100.0\<close>.\<close>

lemma float_mul_100_le:
  assumes le: "valf x \<le> 2 ^ j" and j: "j \<le> 1000"
  shows "\<exists>y. float_mul x (100, 0) = Some y \<and> valf y \<le> 100 * 2 ^ j"
proof (cases x)
  case (Pair m e)
  from le Pair have "(of_nat (m * 100) :: rat) * 2 powi (e + 0) \<le> 100 * 2 ^ j" by simp
  then have "(of_nat (m * 100) :: rat) / of_nat 1 * 2 powi (e + 0) \<le> of_nat 100 * 2 powi int j"
    by simp
  then have "valf (round64 (m * 100) 1 (e + 0)) \<le> of_nat 100 * 2 powi int j"
    by (intro round64_le) simp_all
  then have v: "valf (round64 (m * 100) 1 (e + 0)) \<le> 100 * 2 ^ j" by simp
  also have "(100 :: rat) * 2 ^ j \<le> 2 ^ 7 * 2 ^ j" by simp
  also from j have "(2 :: rat) ^ 7 * 2 ^ j \<le> 2 ^ 7 * 2 ^ 1000"
    by (intro mult_left_mono power_increasing) simp_all
  also have "(2 :: rat) ^ 7 * 2 ^ 1000 < 2 ^ 1024" by (simp flip: power_add)
  finally have "\<not> overflows (round64 (m * 100) 1 (e + 0))" by (rule not_overflows)
  with Pair v show ?thesis by (simp add: binary64_def)
qed

lemma compute_score_le:
  assumes b: "0 < b" and le: "a \<le> 2 ^ j * b" and j: "j \<le> 1000"
  shows "\<exists>s. compute_score a b = Inr s \<and> 0 \<le> s \<and> s \<le> 100 * 2 ^ j"
proof -
  from py_truediv_le [OF assms] obtain x
    where x: "py_truediv a b = Inr x" and vx: "valf x \<le> 2 ^ j" by blast
  from float_mul_100_le [OF vx j] obtain y
    where y: "float_mul x (100, 0) = Some y" and vy: "valf y \<le> 100 * 2 ^ j" by blast
  from x y have s: "compute_score a b = Inr \<lfloor>valf y\<rfloor>"
    by (simp add: compute_score_def py_int_floor)
  have "0 \<le> \<lfloor>valf y\<rfloor>" using valf_nonneg [of y] by simp
  moreover from vy have "\<lfloor>valf y\<rfloor> \<le> \<lfloor>(100 :: rat) * 2 ^ j\<rfloor>" by (rule floor_mono)
  then have "\<lfloor>valf y\<rfloor> \<le> 100 * 2 ^ j"
    using floor_of_int [of "100 * 2 ^ j", where 'a = rat] by simp
  ultimately show ?thesis using s by simp
qed

lemma compute_score_zero: "compute_score a 0 = Inl ZeroDivisionError"
  by (simp add: compute_score_def py_truediv_def)

subsection \<open>Grading and the rule of the specification\<close>













lemma submit_quiz_found:
  assumes "find_quiz w quiz_id current_user = Some qz"
  shows "submit_quiz w quiz_id response current_user =
     (case compute_score (count_correct (qz_questions qz) (qr_user_answers response))
             (length (qz_questions qz)) of
        Inl err \<Rightarrow> (Inl err, w)
      | Inr sc \<Rightarrow>
          (Inr \<lparr>score = sc,
                correct_answers = count_correct (qz_questions qz) (qr_user_answers response),
                total_questions = length (qz_questions qz)\<rparr>,
           w\<lparr>quiz_responses := quiz_responses w @ [response\<lparr>qr_score := Some sc\<rparr>]\<rparr>))"
  using assms by (simp add: submit_quiz_def Let_def)

lemma answer_correct_matched:
  "answer_correct questions ua \<Longrightarrow> ua_question_id ua \<in> q_id ` set questions"
proof -
  assume "answer_correct questions ua"
  then obtain q where "find_question questions (ua_question_id ua) = Some q"
    by (cases "find_question questions (ua_question_id ua)") (simp_all add: answer_correct_def)
  then have "q \<in> set questions" and "q_id q = ua_question_id ua"
    by (auto dest: find_question_Some)
  then show ?thesis by (metis imageI)
qed

lemma count_correct_le:
  assumes "distinct (map ua_question_id uas)"
  shows "count_correct questions uas \<le> length questions"
proof -
  let ?C = "filter (answer_correct questions) uas"
  from assms have d: "distinct (map ua_question_id ?C)" by (rule distinct_map_filter)
  have sub: "set (map ua_question_id ?C) \<subseteq> q_id ` set questions"
    by (auto dest: answer_correct_matched)
  have "count_correct questions uas = length (map ua_question_id ?C)"
    by (simp add: count_correct_filter)
  also from d have "\<dots> = card (set (map ua_question_id ?C))"
    by (rule distinct_card [symmetric])
  also from sub have "\<dots> \<le> card (q_id ` set questions)"
    by (intro card_mono) simp_all
  also have "\<dots> \<le> card (set questions)" by (intro card_image_le) simp
  also have "\<dots> \<le> length questions" by (rule card_length)
  finally show ?thesis .
qed

lemma count_correct_le_length: "count_correct questions uas \<le> length uas"
  by (simp add: count_correct_filter)

lemma py_int_Inl: "py_int y = Inl err \<Longrightarrow> err = OverflowError"
  by (cases y) auto

lemma compute_score_not_zero_division:
  "0 < b \<Longrightarrow> compute_score a b \<noteq> Inl ZeroDivisionError"
  by (auto simp: compute_score_def py_truediv_def split: option.splits dest: py_int_Inl)

lemma str_in_refl: "str_in a a"
  by (simp add: str_in_def)

lemma count_correct_own_answers:
  assumes ids: "distinct (map q_id questions)" and sub: "set chosen \<subseteq> set questions"
  shows "count_correct questions (map own_answer chosen) = length chosen"
proof -
  have "answer_correct questions (own_answer q)" if "q \<in> set chosen" for q
  proof -
    from that sub have "q \<in> set questions" by blast
    with ids have "find_question questions (q_id q) = Some q" by (rule find_question_distinct)
    then show ?thesis by (simp add: answer_correct_def own_answer_def str_in_refl)
  qed
  then have "filter (answer_correct questions) (map own_answer chosen) = map own_answer chosen"
    by (simp add: filter_id_conv)
  then show ?thesis by (simp add: count_correct_filter)
qed

subsection \<open>Evaluating concrete runs\<close>

lemmas example_defs =
  alice_doc_def bob_doc_def alice_def bob_def alice_notes_def bob_notes_def alice_card_def
  bob_card_def raw_card_def question_capital_def question_sum_def question_accent_def
  pair_accent_def quiz_accent_def
  quiz_two_def quiz_one_def quiz_none_def world0_def pair_paris_def pair_four_def
  pair_unknown_def response_of_def user.truncate_def carol_form_def alice_token_def
  card_ids_def

lemmas score_eval =
  compute_score_def py_truediv_def binary64_def round64_def floor_log2_def bit_length.simps
  round_half_even_def Let_def

lemmas string_eval =
  lower_def lower_char_def strip_def isspace_def str_in_def sublist_code

lemma quiz_fifty_stored: "find_quiz world0 ''z-50'' alice = Some quiz_fifty"
proof -
  have "qz_id quiz_fifty = ''z-50''" and "qz_user_id quiz_fifty = ''u-alice''"
    by (simp_all add: quiz_fifty_def quiz_two_def)
  then show ?thesis
    by (simp add: find_quiz_def find_one_def world0_def quiz_two_def quiz_one_def quiz_none_def
        quiz_accent_def alice_def alice_doc_def user.truncate_def)
qed

lemma quiz_fifty_length: "length (qz_questions quiz_fifty) = 50"
  by (simp add: quiz_fifty_def)

lemma quiz_fifty_distinct: "distinct (map q_id (qz_questions quiz_fifty))"
proof -
  have "map q_id (qz_questions quiz_fifty) = map (\<lambda>n. replicate n CHR ''q'') [1..<51]"
    by (simp add: quiz_fifty_def comp_def del: upt_rec_numeral)
  moreover have "inj_on (\<lambda>n. replicate n CHR ''q'') (set [1..<51])"
    by (rule inj_onI) (metis length_replicate)
  ultimately show ?thesis by (simp add: distinct_map del: upt_rec_numeral)
qed

subsection \<open>Lookups by owner\<close>

lemma find_one_None: "find_one flt xs = None \<longleftrightarrow> (\<forall>x \<in> set xs. \<not> flt x)"
  by (auto simp: find_one_def find_None_iff)

lemma find_one_Some: "find_one flt xs = Some x \<Longrightarrow> x \<in> set xs \<and> flt x"
  by (auto simp: find_one_def find_Some_iff)

lemma find_material_foreign:
  assumes mat: "m \<in> set (study_materials w)" and owner: "m_user_id m = u_id a"
    and other: "u_id b \<noteq> u_id a" and unique: "distinct (map m_id (study_materials w))"
  shows "find_material w (m_id m) b = None"
proof -
  have "\<not> (m_id x = m_id m \<and> m_user_id x = u_id b)" if "x \<in> set (study_materials w)" for x
  proof
    assume x: "m_id x = m_id m \<and> m_user_id x = u_id b"
    from unique have "inj_on m_id (set (study_materials w))" by (simp add: distinct_map)
    with that mat x have "x = m" by (auto dest: inj_onD)
    with x owner other show False by simp
  qed
  then show ?thesis by (simp add: find_material_def find_one_None)
qed

lemma find_material_owned:
  "find_material w mid usr = Some m \<Longrightarrow>
     m \<in> set (study_materials w) \<and> m_id m = mid \<and> m_user_id m = u_id usr"
  by (auto simp: find_material_def dest: find_one_Some)

lemma find_quiz_owned:
  "find_quiz w quiz_id usr = Some qz \<Longrightarrow>
     qz \<in> set (quizzes w) \<and> qz_id qz = quiz_id \<and> qz_user_id qz = u_id usr"
  by (auto simp: find_quiz_def dest: find_one_Some)

subsection \<open>Registration, login and tokens\<close>

lemma find_one_append:
  "find_one flt (xs @ ys) = (case find_one flt xs of None \<Rightarrow> find_one flt ys | Some x \<Rightarrow> Some x)"
  by (induction xs) (simp_all add: find_one_def)

lemma register_new:
  assumes "\<forall>u \<in> set (users w). u_email u \<noteq> uc_email usr"
  shows "register key now new_id salt w usr =
    (Inr \<lparr>access_token = Jwt key \<lparr>sub = Some new_id, exp = Some (now + 1800)\<rparr>,
          token_type = ''bearer''\<rparr>,
     w\<lparr>users := users w @
       [\<lparr>u_id = new_id, u_email = uc_email usr, u_full_name = uc_full_name usr,
         u_created_at = now, hashed_password = Bcrypt salt (uc_password usr)\<rparr>]\<rparr>)"
proof -
  from assms have "find_one (\<lambda>u. u_email u = uc_email usr) (users w) = None"
    by (simp add: find_one_None)
  then show ?thesis
    by (simp add: register_def Let_def get_password_hash_def create_access_token_def
        jwt_encode_def minutes_def ACCESS_TOKEN_EXPIRE_MINUTES_def)
qed

lemma get_current_user_valid:
  assumes "now < expire" and "\<exists>u \<in> set (users w). u_id u = uid"
  shows "\<exists>u. get_current_user key now w (Jwt key \<lparr>sub = Some uid, exp = Some expire\<rparr>) = Inr u
           \<and> u_id u = uid"
proof -
  from assms(2) have "find_one (\<lambda>u. u_id u = uid) (users w) \<noteq> None"
    by (simp add: find_one_None)
  then obtain d where d: "find_one (\<lambda>u. u_id u = uid) (users w) = Some d" by blast
  then have "u_id d = uid" by (auto dest: find_one_Some)
  with d assms(1) show ?thesis
    by (simp add: get_current_user_def user.truncate_def)
qed

subsection \<open>Flashcard batches\<close>

lemma build_flashcard_data_length:
  "build_flashcard_data parsed = Inr cards \<Longrightarrow> length cards = length parsed"
  by (induction parsed arbitrary: cards) (auto split: option.splits sum.splits)

lemma make_flashcards_length:
  "length (make_flashcards now uuid i mid uid cards) = length cards"
  by (induction cards arbitrary: i) simp_all

subsection \<open>Identifiers of stored documents\<close>

text \<open>
  The question ids of a generated quiz are the identifiers drawn for them, so they are
  pairwise distinct when the draws are; a material stored under an unused id keeps the
  material ids distinct.
\<close>

lemma build_questions_ids:
  "build_questions uuid i question_type raws = Inr questions \<Longrightarrow>
     map q_id questions = map uuid [i..<i + length raws]"
proof (induction raws arbitrary: i questions)
  case Nil
  then show ?case by simp
next
  case (Cons r rs)
  from Cons.prems obtain rest where rest: "build_questions uuid (Suc i) question_type rs = Inr rest"
    and qs: "map q_id questions = uuid i # map q_id rest"
    by (auto split: option.splits sum.splits)
  from Cons.IH [OF rest] have ih: "map q_id rest = map uuid [Suc i..<Suc i + length rs]" .
  have "i < i + length (r # rs)" by simp
  then have "[i..<i + length (r # rs)] = i # [Suc i..<i + length (r # rs)]"
    by (rule upt_conv_Cons)
  moreover have "i + length (r # rs) = Suc i + length rs" by simp
  ultimately have "[i..<i + length (r # rs)] = i # [Suc i..<Suc i + length rs]"
    by (simp only:)
  then have "map uuid [i..<i + length (r # rs)] = uuid i # map uuid [Suc i..<Suc i + length rs]"
    by (simp only: list.map)
  with qs ih show ?case by (simp only:)
qed

lemma generate_quiz_distinct_ids:
  assumes "inj uuid"
    and "generate_quiz now uuid new_id reply w mid quiz_type question_type usr = (Inr qz, w')"
  shows "distinct (map q_id (qz_questions qz))"
proof -
  from assms(2) obtain raws questions
    where "build_questions uuid 0 question_type raws = Inr questions"
      and "qz_questions qz = questions"
    by (auto simp: generate_quiz_def generate_quiz_with_ai_def Let_def
        split: option.splits sum.splits llm_reply.splits)
  then have "map q_id (qz_questions qz) = map uuid [0..<0 + length raws]"
    by (auto dest: build_questions_ids)
  moreover from assms(1) have "inj_on uuid (set [0..<0 + length raws])"
    by (rule inj_on_subset) simp
  ultimately show ?thesis by (simp add: distinct_map)
qed

lemma upload_material_distinct_ids:
  assumes "distinct (map m_id (study_materials w))"
    and "new_id \<notin> m_id ` set (study_materials w)"
    and "upload_material now file_id new_id reply w ttl file usr = (Inr res, w')"
  shows "distinct (map m_id (study_materials w'))"
  using assms
  by (auto simp: upload_material_def extract_text_from_file_def Let_def
      split: if_splits llm_reply.splits)

subsection \<open>The rounding is to the nearest float\<close>

text \<open>
  \<open>round64\<close> returns a significand of at most 53 bits, of exactly 53 bits above the
  subnormal range, and the number returned is within half a unit in the last place of
  the exact number.
\<close>

lemma bit_length_ge: "0 < n \<Longrightarrow> 2 ^ (bit_length n - 1) \<le> n"
proof (rule ccontr)
  assume n: "0 < n" and "\<not> 2 ^ (bit_length n - 1) \<le> n"
  then have "n < 2 ^ (bit_length n - 1)" by simp
  then have "bit_length n \<le> bit_length n - 1" by (rule bit_length_le)
  moreover from n have "0 < bit_length n" by (subst bit_length.simps) simp
  ultimately show False by simp
qed

lemma round_half_even_ge:
  assumes "0 < den" and "n * den \<le> num"
  shows "n \<le> round_half_even num den"
proof -
  from assms have "n \<le> num div den" by (simp add: less_eq_div_iff_mult_less_eq)
  then show ?thesis by (simp add: round_half_even_def Let_def)
qed

lemma round_half_even_nearest:
  assumes "0 < den"
  shows "\<bar>(of_nat (round_half_even num den) :: rat) - of_nat num / of_nat den\<bar> \<le> 1 / 2"
proof -
  define q r where "q = num div den" and "r = num mod den"
  have "num = q * den + r" by (simp add: q_def r_def)
  then have "(of_nat num :: rat) = of_nat q * of_nat den + of_nat r"
    by (metis of_nat_add of_nat_mult)
  with assms have x: "(of_nat num :: rat) / of_nat den = of_nat q + of_nat r / of_nat den"
    by (simp add: field_simps)
  from assms have rlt: "r < den" by (simp add: r_def)
  consider "2 * r < den" | "den < 2 * r" | "2 * r = den" by linarith
  then show ?thesis
  proof cases
    case 1
    then have "(of_nat (2 * r) :: rat) < of_nat den" by (simp only: of_nat_less_iff)
    with assms have "(of_nat r :: rat) / of_nat den < 1 / 2" by (simp add: field_simps)
    moreover have "(0 :: rat) \<le> of_nat r / of_nat den" by simp
    moreover from 1 have "round_half_even num den = q"
      by (simp add: round_half_even_def Let_def q_def r_def)
    ultimately show ?thesis by (simp add: x)
  next
    case 2
    then have "(of_nat den :: rat) < of_nat (2 * r)" by (simp only: of_nat_less_iff)
    with assms have "(1 :: rat) / 2 < of_nat r / of_nat den" by (simp add: field_simps)
    moreover from rlt have "(of_nat r :: rat) < of_nat den" by (simp only: of_nat_less_iff)
    with assms have "(of_nat r :: rat) / of_nat den < 1" by (simp add: field_simps)
    moreover from 2 have "round_half_even num den = q + 1"
      by (simp add: round_half_even_def Let_def q_def r_def)
    ultimately show ?thesis by (simp add: x)
  next
    case 3
    then have "(of_nat (2 * r) :: rat) = of_nat den" by (simp only:)
    with assms have h: "(of_nat r :: rat) / of_nat den = 1 / 2" by (simp add: field_simps)
    from 3 have "round_half_even num den = q \<or> round_half_even num den = q + 1"
      by (simp add: round_half_even_def Let_def q_def r_def)
    then show ?thesis by (auto simp: x h)
  qed
qed

lemma floor_log2_bounds:
  assumes a: "0 < a" and b: "0 < b"
  shows "(2 :: rat) powi floor_log2 a b \<le> of_nat a / of_nat b"
    and "(of_nat a :: rat) / of_nat b < 2 powi (floor_log2 a b + 1)"
proof -
  have "(2 :: rat) powi floor_log2 a b \<le> of_nat a / of_nat b
      \<and> (of_nat a :: rat) / of_nat b < 2 powi (floor_log2 a b + 1)"
  proof (cases "b \<le> a")
    case True
    define n where "n = a div b"
    from True b have n: "0 < n" by (simp add: n_def div_greater_zero_iff)
    then have bl: "0 < bit_length n" by (subst bit_length.simps) simp
    from True have fl: "floor_log2 a b = int (bit_length n - 1)"
      using bl by (simp add: floor_log2_def n_def)
    have "(2 :: rat) ^ (bit_length n - 1) = of_nat (2 ^ (bit_length n - 1))" by simp
    also from bit_length_ge [OF n] have "\<dots> \<le> (of_nat n :: rat)" by (simp only: of_nat_le_iff)
    also have "\<dots> \<le> of_nat a / of_nat b" unfolding n_def by (rule of_nat_div_le_rat)
    finally have lo: "(2 :: rat) ^ (bit_length n - 1) \<le> of_nat a / of_nat b" .
    have "a < (n + 1) * b"
      using b by (simp add: n_def) (metis dividend_less_div_times add.commute mult.commute)
    moreover from bit_length_less [of n] have "n + 1 \<le> 2 ^ bit_length n" by simp
    then have "(n + 1) * b \<le> 2 ^ bit_length n * b" by (rule mult_le_mono1)
    ultimately have "a < 2 ^ bit_length n * b" by linarith
    then have "(of_nat a :: rat) < of_nat (2 ^ bit_length n * b)" by (simp only: of_nat_less_iff)
    with b have "(of_nat a :: rat) / of_nat b < 2 ^ bit_length n" by (simp add: field_simps)
    moreover from bl have "floor_log2 a b + 1 = int (bit_length n)" by (simp add: fl)
    ultimately have hi: "(of_nat a :: rat) / of_nat b < 2 powi (floor_log2 a b + 1)"
      by (simp only: power_int_of_nat)
    from lo hi show ?thesis by (simp only: fl power_int_of_nat)
  next
    case False
    define n where "n = (b - 1) div a"
    define j where "j = bit_length n"
    from False a have "a \<le> b - 1" by simp
    with a have n: "0 < n" by (simp add: n_def div_greater_zero_iff)
    then have jpos: "0 < j" unfolding j_def by (subst bit_length.simps) simp
    from False have fl: "floor_log2 a b = - int j" by (simp add: floor_log2_def n_def j_def)
    have "n * a \<le> b - 1" by (simp add: n_def)
    have "b - 1 < (n + 1) * a"
      using a by (simp add: n_def) (metis dividend_less_div_times add.commute mult.commute)
    with b have "b \<le> (n + 1) * a" by simp
    moreover from bit_length_less [of n] have "n + 1 \<le> 2 ^ j" by (simp add: j_def)
    then have "(n + 1) * a \<le> 2 ^ j * a" by (rule mult_le_mono1)
    ultimately have "b \<le> 2 ^ j * a" by linarith
    then have "(of_nat b :: rat) \<le> of_nat (2 ^ j * a)" by (simp only: of_nat_le_iff)
    with b have "inverse ((2 :: rat) ^ j) \<le> of_nat a / of_nat b" by (simp add: field_simps)
    then have lo: "(2 :: rat) powi floor_log2 a b \<le> of_nat a / of_nat b"
      by (simp only: fl power_int_minus power_int_of_nat)
    from bit_length_ge [OF n] have "2 ^ (j - 1) * a \<le> n * a"
      unfolding j_def by (rule mult_le_mono1)
    with \<open>n * a \<le> b - 1\<close> b have "2 ^ (j - 1) * a < b" by linarith
    then have "(of_nat (2 ^ (j - 1) * a) :: rat) < of_nat b" by (simp only: of_nat_less_iff)
    then have "(of_nat a :: rat) * 2 ^ (j - 1) < of_nat b" by (simp add: mult.commute)
    then have "(of_nat a :: rat) < inverse (2 ^ (j - 1)) * of_nat b" by (simp add: field_simps)
    with b have "(of_nat a :: rat) / of_nat b < inverse (2 ^ (j - 1))"
      by (simp add: divide_less_eq)
    moreover from jpos have "floor_log2 a b + 1 = - int (j - 1)" by (simp add: fl)
    ultimately have hi: "(of_nat a :: rat) / of_nat b < 2 powi (floor_log2 a b + 1)"
      by (simp only: power_int_minus power_int_of_nat)
    from lo hi show ?thesis by simp
  qed
  then show "(2 :: rat) powi floor_log2 a b \<le> of_nat a / of_nat b"
    and "(of_nat a :: rat) / of_nat b < 2 powi (floor_log2 a b + 1)" by simp_all
qed

lemma round64_scaled:
  assumes a: "0 < a" and b: "0 < b"
  shows "\<exists>num den. 0 < den
    \<and> round64 a b s = (round_half_even num den, max (floor_log2 a b + s - 52) (- 1074))
    \<and> (of_nat num :: rat) / of_nat den
        = of_nat a / of_nat b * 2 powi (s - max (floor_log2 a b + s - 52) (- 1074))"
proof -
  define e where "e = max (floor_log2 a b + s - 52) (- 1074)"
  from a have r: "round64 a b s =
      (if e \<le> s then (round_half_even (a * 2 ^ nat (s - e)) b, e)
       else (round_half_even a (b * 2 ^ nat (e - s)), e))"
    by (simp add: round64_def e_def Let_def)
  show ?thesis
  proof (cases "e \<le> s")
    case True
    define t where "t = nat (s - e)"
    from True have "(2 :: rat) powi (s - e) = 2 ^ t"
      by (simp add: t_def power_int_nonneg_exp)
    then have "(of_nat (a * 2 ^ t) :: rat) / of_nat b = of_nat a / of_nat b * 2 powi (s - e)"
      by simp
    moreover from True have "round64 a b s = (round_half_even (a * 2 ^ t) b, e)"
      by (simp add: r t_def)
    ultimately show ?thesis using b unfolding e_def by blast
  next
    case False
    define u where "u = nat (e - s)"
    from False have "s - e = - int u" by (simp add: u_def)
    then have p: "(2 :: rat) powi (s - e) = inverse (2 ^ u)"
      by (simp only: power_int_minus power_int_of_nat)
    have "(of_nat a :: rat) / of_nat (b * 2 ^ u) = of_nat a / of_nat b * 2 powi (s - e)"
      unfolding p by (simp add: field_simps)
    moreover from False have "round64 a b s = (round_half_even a (b * 2 ^ u), e)"
      by (simp add: r u_def)
    moreover from b have "0 < b * 2 ^ u" by simp
    ultimately show ?thesis unfolding e_def by blast
  qed
qed

lemma round64_nearest:
  assumes a: "0 < a" and b: "0 < b"
  shows "\<exists>m e. round64 a b s = (m, e)
    \<and> e = max (floor_log2 a b + s - 52) (- 1074)
    \<and> \<bar>valf (m, e) - of_nat a / of_nat b * 2 powi s\<bar> \<le> 2 powi e / 2
    \<and> m \<le> 2 ^ 53
    \<and> (- 1074 < e \<longrightarrow> 2 ^ 52 \<le> m)"
proof -
  define e where "e = max (floor_log2 a b + s - 52) (- 1074)"
  define x :: rat where "x = of_nat a / of_nat b * 2 powi (s - e)"
  from round64_scaled [OF a b, of s] obtain num den
    where den: "0 < den" and r: "round64 a b s = (round_half_even num den, e)"
      and scaled: "(of_nat num :: rat) / of_nat den = x"
    unfolding e_def x_def by blast
  define m where "m = round_half_even num den"
  have pos: "(0 :: rat) < 2 powi i" for i by simp
  have exact: "x * 2 powi e = of_nat a / of_nat b * 2 powi s"
  proof -
    have "(2 :: rat) powi (s - e) * 2 powi e = 2 powi ((s - e) + e)"
      by (rule power_int_add [symmetric]) simp
    then show ?thesis by (simp add: x_def mult.assoc)
  qed
  have near: "\<bar>(of_nat m :: rat) - x\<bar> \<le> 1 / 2"
    using round_half_even_nearest [OF den, of num] by (simp add: m_def scaled)
  have "valf (m, e) - of_nat a / of_nat b * 2 powi s = (of_nat m - x) * 2 powi e"
    by (simp only: exact [symmetric] valf.simps left_diff_distrib)
  then have "\<bar>valf (m, e) - of_nat a / of_nat b * 2 powi s\<bar> = \<bar>(of_nat m - x) * 2 powi e\<bar>"
    by (simp only:)
  also have "\<dots> = \<bar>of_nat m - x\<bar> * 2 powi e" by (simp add: abs_mult)
  also from near have "\<dots> \<le> 1 / 2 * 2 powi e"
    using pos [of e] by (simp only: mult_le_cancel_right_pos)
  finally have err: "\<bar>valf (m, e) - of_nat a / of_nat b * 2 powi s\<bar> \<le> 2 powi e / 2" by simp
  have "floor_log2 a b + s - 52 \<le> e" by (simp add: e_def)
  then have "s - e \<le> 52 - floor_log2 a b" by simp
  then have "(2 :: rat) powi (s - e) \<le> 2 powi (52 - floor_log2 a b)"
    by (rule power_int_increasing) simp
  moreover have "(0 :: rat) \<le> of_nat a / of_nat b" by simp
  ultimately have "x \<le> of_nat a / of_nat b * 2 powi (52 - floor_log2 a b)"
    unfolding x_def by (rule mult_left_mono)
  also from floor_log2_bounds(2) [OF a b]
  have "\<dots> < 2 powi (floor_log2 a b + 1) * 2 powi (52 - floor_log2 a b)"
    using pos [of "52 - floor_log2 a b"] by (simp only: mult_less_cancel_right_pos)
  also have "\<dots> = 2 powi ((floor_log2 a b + 1) + (52 - floor_log2 a b))"
    by (rule power_int_add [symmetric]) simp
  also have "\<dots> = 2 ^ 53" by simp
  finally have "x < 2 ^ 53" .
  with den have "(of_nat num :: rat) < 2 ^ 53 * of_nat den"
    by (simp add: scaled [symmetric] divide_less_eq)
  then have "(of_nat num :: rat) < of_nat (2 ^ 53 * den)" by simp
  then have "num < 2 ^ 53 * den" by (simp only: of_nat_less_iff)
  with den have upper: "m \<le> 2 ^ 53"
    unfolding m_def by (intro round_half_even_le) simp_all
  have lower: "2 ^ 52 \<le> m" if "- 1074 < e"
  proof -
    from that have e: "e = floor_log2 a b + s - 52" by (simp add: e_def)
    have "(2 :: rat) ^ 52 = 2 powi floor_log2 a b * 2 powi (52 - floor_log2 a b)"
    proof -
      have "(2 :: rat) powi floor_log2 a b * 2 powi (52 - floor_log2 a b)
          = 2 powi (floor_log2 a b + (52 - floor_log2 a b))"
        by (rule power_int_add [symmetric]) simp
      then show ?thesis by simp
    qed
    also from floor_log2_bounds(1) [OF a b]
    have "\<dots> \<le> of_nat a / of_nat b * 2 powi (52 - floor_log2 a b)"
      using pos [of "52 - floor_log2 a b"] by (simp only: mult_le_cancel_right_pos)
    also have "\<dots> = x" by (simp add: x_def e)
    finally have "(2 :: rat) ^ 52 \<le> x" .
    with den have "(2 :: rat) ^ 52 * of_nat den \<le> of_nat num"
      by (simp add: scaled [symmetric] le_divide_eq)
    then have "(of_nat (2 ^ 52 * den) :: rat) \<le> of_nat num" by simp
    then have "2 ^ 52 * den \<le> num" by (simp only: of_nat_le_iff)
    with den show ?thesis unfolding m_def by (intro round_half_even_ge) simp_all
  qed
  from r err upper lower show ?thesis unfolding m_def e_def by blast
qed

subsection \<open>The score is not negative\<close>

lemma py_int_nonneg: "py_int y = Inr v \<Longrightarrow> 0 \<le> v"
  by (cases y) (auto split: if_splits)

lemma compute_score_nonneg: "compute_score a b = Inr sc \<Longrightarrow> 0 \<le> sc"
  by (auto simp: compute_score_def split: sum.splits dest: py_int_nonneg)

section \<open>The claims\<close>



text \<open>
  C2. The claim: with \<open>N\<close> embedded questions and \<open>K\<close> pairs graded correct, the score is
  the exact floor of \<open>100 * K / N\<close>. The handler computes
  \<open>int((correct_answers / total_questions) * 100)\<close> in floating point. For the quiz of fifty
  questions and the submission of the stored answers of 29 of them, the quotient is rounded
  to a float just below \<open>0.58\<close>, its product with \<open>100\<close> to a float just below \<open>58\<close>, and
  the score returned is 57, while the floor of \<open>100 * 29 / 50\<close> is 58.
\<close>

theorem score_below_floor:
  "fst (submit_quiz world0 ''z-50''
          (response_of ''z-50'' (map own_answer (take 29 (qz_questions quiz_fifty)))) alice)
     = Inr \<lparr>score = 57, correct_answers = 29, total_questions = 50\<rparr>
   \<and> (100 * 29) div 50 = (58 :: int)"
proof -
  have "count_correct (qz_questions quiz_fifty) (map own_answer (take 29 (qz_questions quiz_fifty)))
      = length (take 29 (qz_questions quiz_fifty))"
    using quiz_fifty_distinct by (rule count_correct_own_answers) (rule set_take_subset)
  then have count: "count_correct (qz_questions quiz_fifty)
      (map own_answer (take 29 (qz_questions quiz_fifty))) = 29"
    by (simp add: quiz_fifty_length)
  have sc: "compute_score 29 50 = Inr 57"
    by (simp add: score_eval)
  from count sc show ?thesis
    by (simp add: submit_quiz_found [OF quiz_fifty_stored] quiz_fifty_length response_of_def)
qed

text \<open>
  C3. For a stored quiz that has a question: when the pairs counted correct are no more
  than the embedded questions, the submission is answered with a score between 0 and 100,
  and that score is written into the stored response; this is so whenever no question id
  is repeated in the submission, and for a submission that repeats ids as well as long as
  the count stays within the number of questions. For every submission (of fewer than
  \<open>2 ^ 63\<close> pairs, the bound of a Python list) a score is computed and it is not negative;
  whatever score is returned is not negative and is the one stored. (With a repeated id
  the score can pass 100, as the run after the theorem shows.)
\<close>

theorem score_in_range:
  assumes stored: "find_quiz w quiz_id current_user = Some qz"
    and nonempty: "qz_questions qz \<noteq> []"
  shows "(count_correct (qz_questions qz) (qr_user_answers response) \<le> length (qz_questions qz) \<longrightarrow>
          (\<exists>sc. submit_quiz w quiz_id response current_user =
             (Inr \<lparr>score = sc,
                   correct_answers = count_correct (qz_questions qz) (qr_user_answers response),
                   total_questions = length (qz_questions qz)\<rparr>,
              w\<lparr>quiz_responses := quiz_responses w @ [response\<lparr>qr_score := Some sc\<rparr>]\<rparr>)
           \<and> 0 \<le> sc \<and> sc \<le> 100))
    \<and> (distinct (map ua_question_id (qr_user_answers response)) \<longrightarrow>
          count_correct (qz_questions qz) (qr_user_answers response) \<le> length (qz_questions qz))
    \<and> (length (qr_user_answers response) < 2 ^ 63 \<longrightarrow>
          (\<exists>sc. submit_quiz w quiz_id response current_user =
             (Inr \<lparr>score = sc,
                   correct_answers = count_correct (qz_questions qz) (qr_user_answers response),
                   total_questions = length (qz_questions qz)\<rparr>,
              w\<lparr>quiz_responses := quiz_responses w @ [response\<lparr>qr_score := Some sc\<rparr>]\<rparr>)
           \<and> 0 \<le> sc))
    \<and> (submit_quiz w quiz_id response current_user = (Inr result, w') \<longrightarrow>
          0 \<le> score result
          \<and> w' = w\<lparr>quiz_responses :=
                     quiz_responses w @ [response\<lparr>qr_score := Some (score result)\<rparr>]\<rparr>)"
proof (intro conjI impI)
  let ?k = "count_correct (qz_questions qz) (qr_user_answers response)"
  let ?n = "length (qz_questions qz)"
  from nonempty have n: "0 < ?n" by simp
  {
    assume "?k \<le> ?n"
    then have "?k \<le> 2 ^ 0 * ?n" by simp
    from compute_score_le [OF n this] obtain sc
      where sc: "compute_score ?k ?n = Inr sc" and range: "0 \<le> sc" "sc \<le> 100" by auto
    from sc have "submit_quiz w quiz_id response current_user =
        (Inr \<lparr>score = sc, correct_answers = ?k, total_questions = ?n\<rparr>,
         w\<lparr>quiz_responses := quiz_responses w @ [response\<lparr>qr_score := Some sc\<rparr>]\<rparr>)"
      by (simp add: submit_quiz_found [OF stored])
    with range show "\<exists>sc. submit_quiz w quiz_id response current_user =
        (Inr \<lparr>score = sc, correct_answers = ?k, total_questions = ?n\<rparr>,
         w\<lparr>quiz_responses := quiz_responses w @ [response\<lparr>qr_score := Some sc\<rparr>]\<rparr>)
        \<and> 0 \<le> sc \<and> sc \<le> 100" by blast
  }
  {
    assume "distinct (map ua_question_id (qr_user_answers response))"
    then show "?k \<le> ?n" by (rule count_correct_le)
  }
  {
    assume short: "length (qr_user_answers response) < 2 ^ 63"
    have "?k \<le> length (qr_user_answers response)" by (rule count_correct_le_length)
    with short have "?k \<le> 2 ^ 63 * 1" by simp
    also from n have "(2::nat) ^ 63 * 1 \<le> 2 ^ 63 * ?n" by (intro mult_le_mono2) linarith
    finally have "?k \<le> 2 ^ 63 * ?n" .
    from compute_score_le [OF n this] obtain sc
      where sc: "compute_score ?k ?n = Inr sc" and range: "0 \<le> sc" by auto
    from sc have "submit_quiz w quiz_id response current_user =
        (Inr \<lparr>score = sc, correct_answers = ?k, total_questions = ?n\<rparr>,
         w\<lparr>quiz_responses := quiz_responses w @ [response\<lparr>qr_score := Some sc\<rparr>]\<rparr>)"
      by (simp add: submit_quiz_found [OF stored])
    with range show "\<exists>sc. submit_quiz w quiz_id response current_user =
        (Inr \<lparr>score = sc, correct_answers = ?k, total_questions = ?n\<rparr>,
         w\<lparr>quiz_responses := quiz_responses w @ [response\<lparr>qr_score := Some sc\<rparr>]\<rparr>)
        \<and> 0 \<le> sc" by blast
  }
  {
    assume run: "submit_quiz w quiz_id response current_user = (Inr result, w')"
    then obtain sc where sc: "compute_score ?k ?n = Inr sc" and res: "score result = sc"
      and w': "w' = w\<lparr>quiz_responses := quiz_responses w @ [response\<lparr>qr_score := Some sc\<rparr>]\<rparr>"
      by (auto simp: submit_quiz_found [OF stored] split: sum.splits)
    from sc have "0 \<le> sc" by (rule compute_score_nonneg)
    with res show "0 \<le> score result" by simp
    from w' res show "w' = w\<lparr>quiz_responses :=
        quiz_responses w @ [response\<lparr>qr_score := Some (score result)\<rparr>]\<rparr>" by simp
  }
qed

theorem score_in_range_witness:
  "find_quiz world0 ''z-2'' alice = Some quiz_two
   \<and> qz_questions quiz_two \<noteq> []
   \<and> \<not> distinct (map ua_question_id (qr_user_answers (response_of ''z-2'' [pair_four, pair_four])))
   \<and> count_correct (qz_questions quiz_two)
         (qr_user_answers (response_of ''z-2'' [pair_four, pair_four]))
       \<le> length (qz_questions quiz_two)
   \<and> (\<exists>sc. submit_quiz world0 ''z-2'' (response_of ''z-2'' [pair_four, pair_four]) alice =
           (Inr \<lparr>score = sc,
                 correct_answers = count_correct (qz_questions quiz_two)
                   (qr_user_answers (response_of ''z-2'' [pair_four, pair_four])),
                 total_questions = length (qz_questions quiz_two)\<rparr>,
            world0\<lparr>quiz_responses := quiz_responses world0 @
              [(response_of ''z-2'' [pair_four, pair_four])\<lparr>qr_score := Some sc\<rparr>]\<rparr>)
         \<and> 0 \<le> sc \<and> sc \<le> 100)
   \<and> distinct (map ua_question_id (qr_user_answers (response_of ''z-2'' [pair_paris, pair_unknown])))
   \<and> count_correct (qz_questions quiz_two)
         (qr_user_answers (response_of ''z-2'' [pair_paris, pair_unknown]))
       \<le> length (qz_questions quiz_two)
   \<and> find_quiz world0 ''z-1'' alice = Some quiz_one
   \<and> qz_questions quiz_one \<noteq> []
   \<and> length (qr_user_answers (response_of ''z-1'' [pair_four, pair_four])) < 2 ^ 63
   \<and> (\<exists>sc. submit_quiz world0 ''z-1'' (response_of ''z-1'' [pair_four, pair_four]) alice =
           (Inr \<lparr>score = sc,
                 correct_answers = count_correct (qz_questions quiz_one)
                   (qr_user_answers (response_of ''z-1'' [pair_four, pair_four])),
                 total_questions = length (qz_questions quiz_one)\<rparr>,
            world0\<lparr>quiz_responses := quiz_responses world0 @
              [(response_of ''z-1'' [pair_four, pair_four])\<lparr>qr_score := Some sc\<rparr>]\<rparr>)
         \<and> 0 \<le> sc)"
proof -
  let ?twice2 = "response_of ''z-2'' [pair_four, pair_four]"
  let ?once2 = "response_of ''z-2'' [pair_paris, pair_unknown]"
  let ?twice1 = "response_of ''z-1'' [pair_four, pair_four]"
  have stored2: "find_quiz world0 ''z-2'' alice = Some quiz_two"
    and stored1: "find_quiz world0 ''z-1'' alice = Some quiz_one"
    by (simp_all add: find_quiz_def find_one_def example_defs)
  have nonempty2: "qz_questions quiz_two \<noteq> []" and nonempty1: "qz_questions quiz_one \<noteq> []"
    by (simp_all add: example_defs)
  have repeated: "\<not> distinct (map ua_question_id (qr_user_answers ?twice2))"
    by (simp add: example_defs)
  have "count_correct (qz_questions quiz_two) (qr_user_answers ?twice2) = 2"
    by (simp add: count_correct_def answer_correct_def find_question_def example_defs string_eval)
  moreover have "length (qz_questions quiz_two) = 2" by (simp add: example_defs)
  ultimately have within: "count_correct (qz_questions quiz_two) (qr_user_answers ?twice2)
      \<le> length (qz_questions quiz_two)" by simp
  have norepeat: "distinct (map ua_question_id (qr_user_answers ?once2))"
    by (simp add: example_defs)
  have short: "length (qr_user_answers ?twice1) < 2 ^ 63"
    by (simp add: response_of_def)
  note two = score_in_range [OF stored2 nonempty2]
  note one = score_in_range [OF stored1 nonempty1]
  from two [of ?twice2] within
  have a: "\<exists>sc. submit_quiz world0 ''z-2'' ?twice2 alice =
           (Inr \<lparr>score = sc,
                 correct_answers = count_correct (qz_questions quiz_two) (qr_user_answers ?twice2),
                 total_questions = length (qz_questions quiz_two)\<rparr>,
            world0\<lparr>quiz_responses := quiz_responses world0 @ [?twice2\<lparr>qr_score := Some sc\<rparr>]\<rparr>)
         \<and> 0 \<le> sc \<and> sc \<le> 100"
    by blast
  from two [of ?once2] norepeat
  have b: "count_correct (qz_questions quiz_two) (qr_user_answers ?once2)
      \<le> length (qz_questions quiz_two)"
    by blast
  from one [of ?twice1] short
  have c: "\<exists>sc. submit_quiz world0 ''z-1'' ?twice1 alice =
           (Inr \<lparr>score = sc,
                 correct_answers = count_correct (qz_questions quiz_one) (qr_user_answers ?twice1),
                 total_questions = length (qz_questions quiz_one)\<rparr>,
            world0\<lparr>quiz_responses := quiz_responses world0 @ [?twice1\<lparr>qr_score := Some sc\<rparr>]\<rparr>)
         \<and> 0 \<le> sc"
    by blast
  from stored2 nonempty2 repeated within a norepeat b stored1 nonempty1 short c
  show ?thesis by (intro conjI)
qed

text \<open>
  The claim C3 as stated covers submissions that repeat a question id. The quiz \<open>z-1\<close>
  has the one question \<open>q-2\<close>; the submission answers it twice, both pairs are counted,
  and the score returned and stored is 200.
\<close>

theorem score_above_100_counterexample:
  "submit_quiz world0 ''z-1'' (response_of ''z-1'' [pair_four, pair_four]) alice =
     (Inr \<lparr>score = 200, correct_answers = 2, total_questions = 1\<rparr>,
      world0\<lparr>quiz_responses :=
        [(response_of ''z-1'' [pair_four, pair_four])\<lparr>qr_score := Some 200\<rparr>]\<rparr>)"
proof -
  have stored: "find_quiz world0 ''z-1'' alice = Some quiz_one"
    by (simp add: find_quiz_def find_one_def example_defs)
  have count: "count_correct (qz_questions quiz_one) [pair_four, pair_four] = 2"
    by (simp add: count_correct_def answer_correct_def find_question_def example_defs string_eval)
  have sc: "compute_score 2 1 = Inr 200"
    by (simp add: score_eval)
  have len: "length (qz_questions quiz_one) = 1" and none: "quiz_responses world0 = []"
    by (simp_all add: example_defs)
  from count sc len none show ?thesis
    by (simp add: submit_quiz_found [OF stored] response_of_def)
qed

text \<open>
  C10. The division of the score is unguarded. For a stored quiz, \<open>submit_quiz\<close> raises
  \<open>ZeroDivisionError\<close> exactly when the quiz has no embedded question, and then nothing is
  stored; when the quiz has a question (and the submission has fewer than \<open>2 ^ 63\<close> pairs,
  the bound of a Python list) the score is computed and a result returned.
\<close>

theorem score_division_unguarded:
  assumes stored: "find_quiz w quiz_id current_user = Some qz"
  shows "(fst (submit_quiz w quiz_id response current_user) = Inl ZeroDivisionError
            \<longleftrightarrow> qz_questions qz = [])
       \<and> (qz_questions qz = [] \<longrightarrow>
            submit_quiz w quiz_id response current_user = (Inl ZeroDivisionError, w))
       \<and> (qz_questions qz \<noteq> [] \<and> length (qr_user_answers response) < 2 ^ 63 \<longrightarrow>
            (\<exists>result w'. submit_quiz w quiz_id response current_user = (Inr result, w')))"
proof (intro conjI impI)
  let ?k = "count_correct (qz_questions qz) (qr_user_answers response)"
  let ?n = "length (qz_questions qz)"
  show "fst (submit_quiz w quiz_id response current_user) = Inl ZeroDivisionError
      \<longleftrightarrow> qz_questions qz = []"
  proof (cases "qz_questions qz = []")
    case True
    then show ?thesis by (simp add: submit_quiz_found [OF stored] compute_score_zero)
  next
    case False
    then have "compute_score ?k ?n \<noteq> Inl ZeroDivisionError"
      by (intro compute_score_not_zero_division) simp
    with False show ?thesis
      by (auto simp: submit_quiz_found [OF stored] split: sum.splits)
  qed
next
  assume "qz_questions qz = []"
  then show "submit_quiz w quiz_id response current_user = (Inl ZeroDivisionError, w)"
    by (simp add: submit_quiz_found [OF stored] compute_score_zero)
next
  let ?k = "count_correct (qz_questions qz) (qr_user_answers response)"
  let ?n = "length (qz_questions qz)"
  assume a: "qz_questions qz \<noteq> [] \<and> length (qr_user_answers response) < 2 ^ 63"
  then have n: "0 < ?n" by simp
  have "?k \<le> length (qr_user_answers response)" by (rule count_correct_le_length)
  with a have "?k \<le> 2 ^ 63 * 1" by simp
  also from n have "(2::nat) ^ 63 * 1 \<le> 2 ^ 63 * ?n" by (intro mult_le_mono2) linarith
  finally have "?k \<le> 2 ^ 63 * ?n" .
  from compute_score_le [OF n this] obtain sc where "compute_score ?k ?n = Inr sc" by auto
  then show "\<exists>result w'. submit_quiz w quiz_id response current_user = (Inr result, w')"
    by (simp add: submit_quiz_found [OF stored])
qed

theorem score_division_unguarded_witness:
  "find_quiz world0 ''z-0'' alice = Some quiz_none
   \<and> qz_questions quiz_none = []
   \<and> submit_quiz world0 ''z-0'' (response_of ''z-0'' [pair_four]) alice
       = (Inl ZeroDivisionError, world0)
   \<and> find_quiz world0 ''z-2'' alice = Some quiz_two
   \<and> qz_questions quiz_two \<noteq> []
   \<and> length (qr_user_answers (response_of ''z-2'' [pair_four])) < 2 ^ 63
   \<and> fst (submit_quiz world0 ''z-2'' (response_of ''z-2'' [pair_four]) alice)
       \<noteq> Inl ZeroDivisionError
   \<and> (\<exists>result w'. submit_quiz world0 ''z-2'' (response_of ''z-2'' [pair_four]) alice
         = (Inr result, w'))"
proof -
  have stored0: "find_quiz world0 ''z-0'' alice = Some quiz_none"
    and stored2: "find_quiz world0 ''z-2'' alice = Some quiz_two"
    by (simp_all add: find_quiz_def find_one_def example_defs)
  have empty: "qz_questions quiz_none = []" and nonempty: "qz_questions quiz_two \<noteq> []"
    by (simp_all add: example_defs)
  have short: "length (qr_user_answers (response_of ''z-2'' [pair_four])) < 2 ^ 63"
    by (simp add: response_of_def)
  from score_division_unguarded [OF stored0, of "response_of ''z-0'' [pair_four]"] empty
  have a: "submit_quiz world0 ''z-0'' (response_of ''z-0'' [pair_four]) alice
      = (Inl ZeroDivisionError, world0)"
    by blast
  from score_division_unguarded [OF stored2, of "response_of ''z-2'' [pair_four]"] nonempty short
  have b: "fst (submit_quiz world0 ''z-2'' (response_of ''z-2'' [pair_four]) alice)
      \<noteq> Inl ZeroDivisionError"
    and c: "\<exists>result w'. submit_quiz world0 ''z-2'' (response_of ''z-2'' [pair_four]) alice
      = (Inr result, w')"
    by blast+
  from stored0 empty a stored2 nonempty short b c show ?thesis by (intro conjI)
qed

text \<open>
  C4. Ownership isolation. Let a material stored under a unique id belong to user \<open>a\<close>,
  and let \<open>b\<close> be another user. Then each of \<open>b\<close>'s material-scoped requests on that id
  (get material, generate quiz, generate flashcards, ask) ends with status 404 and leaves
  the world as it was: no call to the model is made and nothing of the material comes
  back. Every read made for \<open>b\<close> selects by the authenticated user's id: the materials and
  flashcards listed, the material and the quiz looked up by id all belong to \<open>b\<close>.
\<close>

theorem ownership_isolation:
  assumes mat: "m \<in> set (study_materials w)" and owner: "m_user_id m = u_id a"
    and other: "u_id b \<noteq> u_id a" and unique: "distinct (map m_id (study_materials w))"
  shows "get_material w (m_id m) b = Inl (HTTPException 404 ''Material not found'')
    \<and> generate_quiz now uuid new_id quiz_reply w (m_id m) quiz_type question_type b
        = (Inl (HTTPException 404 ''Material not found''), w)
    \<and> generate_flashcards now uuid card_reply w (m_id m) b
        = (Inl (HTTPException 404 ''Material not found''), w)
    \<and> ask_question chat_reply w (m_id m) question b
        = (Inl (HTTPException 404 ''Material not found''), w)
    \<and> (\<forall>x \<in> set (get_materials w b). m_user_id x = u_id b)
    \<and> (\<forall>x \<in> set (get_flashcards w mid b). fc_material_id x = mid \<and> fc_user_id x = u_id b)
    \<and> (\<forall>x. get_material w mid b = Inr x \<longrightarrow> m_id x = mid \<and> m_user_id x = u_id b)
    \<and> (\<forall>x. find_quiz w quiz_id b = Some x \<longrightarrow> qz_id x = quiz_id \<and> qz_user_id x = u_id b)"
proof -
  from assms have none: "find_material w (m_id m) b = None" by (rule find_material_foreign)
  have "\<forall>x. get_material w mid b = Inr x \<longrightarrow> m_id x = mid \<and> m_user_id x = u_id b"
    by (auto simp: get_material_def split: option.splits dest: find_material_owned)
  moreover have "\<forall>x. find_quiz w quiz_id b = Some x \<longrightarrow> qz_id x = quiz_id \<and> qz_user_id x = u_id b"
    by (auto dest: find_quiz_owned)
  ultimately show ?thesis
    using none
    by (simp add: get_material_def generate_quiz_def generate_flashcards_def ask_question_def
        get_materials_def get_flashcards_def)
qed

theorem ownership_isolation_witness:
  "alice_notes \<in> set (study_materials world0)
   \<and> m_user_id alice_notes = u_id alice
   \<and> u_id bob \<noteq> u_id alice
   \<and> distinct (map m_id (study_materials world0))
   \<and> get_material world0 ''m-1'' alice = Inr alice_notes
   \<and> get_material world0 ''m-1'' bob = Inl (HTTPException 404 ''Material not found'')
   \<and> generate_quiz 40 (\<lambda>i. replicate i CHR ''x'') ''z-9'' (LlmReply []) world0 ''m-1''
        ''practice'' ''mcq'' bob = (Inl (HTTPException 404 ''Material not found''), world0)
   \<and> generate_flashcards 40 (\<lambda>i. replicate i CHR ''x'') (LlmReply [raw_card]) world0 ''m-1'' bob
        = (Inl (HTTPException 404 ''Material not found''), world0)
   \<and> ask_question (LlmReply ''Paris.'') world0 ''m-1'' ''Which city?'' bob
        = (Inl (HTTPException 404 ''Material not found''), world0)
   \<and> get_materials world0 bob = [bob_notes]
   \<and> m_user_id bob_notes = u_id bob
   \<and> get_flashcards world0 ''m-2'' bob = [bob_card]
   \<and> get_flashcards world0 ''m-1'' bob = []
   \<and> fc_material_id bob_card = ''m-2'' \<and> fc_user_id bob_card = u_id bob
   \<and> get_material world0 ''m-2'' bob = Inr bob_notes
   \<and> find_quiz world0 ''z-2'' bob = None"
proof -
  have mat: "alice_notes \<in> set (study_materials world0)"
    and owner: "m_user_id alice_notes = u_id alice"
    and other: "u_id bob \<noteq> u_id alice"
    and unique: "distinct (map m_id (study_materials world0))"
    and mid: "m_id alice_notes = ''m-1''"
    by (simp_all add: example_defs)
  have own: "get_material world0 ''m-1'' alice = Inr alice_notes"
    "get_material world0 ''m-2'' bob = Inr bob_notes"
    by (simp_all add: get_material_def find_material_def find_one_def example_defs)
  have lists: "get_materials world0 bob = [bob_notes]"
    "get_flashcards world0 ''m-2'' bob = [bob_card]"
    "get_flashcards world0 ''m-1'' bob = []"
    by (simp_all add: get_materials_def get_flashcards_def example_defs)
  have quiz: "find_quiz world0 ''z-2'' bob = None"
    unfolding find_quiz_def find_one_None
    by (simp add: world0_def quiz_two_def quiz_one_def quiz_none_def quiz_accent_def
        quiz_fifty_def bob_def bob_doc_def user.truncate_def)
  note iso = ownership_isolation [OF mat owner other unique,
      where now = 40 and uuid = "\<lambda>i. replicate i CHR ''x''" and new_id = "''z-9''"
        and quiz_reply = "LlmReply []" and quiz_type = "''practice''" and question_type = "''mcq''"
        and card_reply = "LlmReply [raw_card]" and chat_reply = "LlmReply ''Paris.''"
        and question = "''Which city?''" and mid = "''m-2''" and quiz_id = "''z-2''",
      unfolded mid]
  from iso mat owner other unique own lists quiz show ?thesis by simp
qed

text \<open>
  C5. Round trip of registration and login. For an email that no stored user has,
  \<open>register\<close> succeeds, \<open>login\<close> with the same email and password then succeeds, and
  \<open>get_current_user\<close>, called on each of the two tokens before it expires (1800 seconds
  after it was issued), returns a user whose id is the one stored at registration.
\<close>

theorem register_login_roundtrip:
  assumes fresh: "\<forall>u \<in> set (users w). u_email u \<noteq> uc_email usr"
    and live_reg: "t_auth_reg < t_reg + 1800"
    and live_login: "t_auth_login < t_login + 1800"
  shows "\<exists>tok_reg w' tok_login u_reg u_login.
      register key t_reg new_id salt w usr = (Inr tok_reg, w')
    \<and> login key t_login w' \<lparr>ul_email = uc_email usr, ul_password = uc_password usr\<rparr>
          = Inr tok_login
    \<and> get_current_user key t_auth_reg w' (access_token tok_reg) = Inr u_reg
    \<and> get_current_user key t_auth_login w' (access_token tok_login) = Inr u_login
    \<and> (\<exists>d \<in> set (users w'). u_id d = new_id \<and> u_email d = uc_email usr)
    \<and> u_id u_reg = new_id \<and> u_id u_login = new_id"
proof -
  let ?doc = "\<lparr>u_id = new_id, u_email = uc_email usr, u_full_name = uc_full_name usr,
      u_created_at = t_reg, hashed_password = Bcrypt salt (uc_password usr)\<rparr>"
  let ?w = "w\<lparr>users := users w @ [?doc]\<rparr>"
  let ?tok = "\<lambda>t. \<lparr>access_token = Jwt key \<lparr>sub = Some new_id, exp = Some (t + 1800)\<rparr>,
      token_type = ''bearer''\<rparr>"
  have reg: "register key t_reg new_id salt w usr = (Inr (?tok t_reg), ?w)"
    using fresh by (rule register_new)
  from fresh have "find_one (\<lambda>u. u_email u = uc_email usr) (users w) = None"
    by (simp add: find_one_None)
  then have "find_one (\<lambda>u. u_email u = uc_email usr) (users ?w) = Some ?doc"
    by (simp add: find_one_append) (simp add: find_one_def)
  then have log: "login key t_login ?w \<lparr>ul_email = uc_email usr, ul_password = uc_password usr\<rparr>
      = Inr (?tok t_login)"
    by (simp add: login_def Let_def create_access_token_def jwt_encode_def minutes_def
        ACCESS_TOKEN_EXPIRE_MINUTES_def)
  have stored: "\<exists>d \<in> set (users ?w). u_id d = new_id \<and> u_email d = uc_email usr" by simp
  then have known: "\<exists>d \<in> set (users ?w). u_id d = new_id" by blast
  from get_current_user_valid [OF live_reg known] obtain u_reg
    where a: "get_current_user key t_auth_reg ?w (access_token (?tok t_reg)) = Inr u_reg"
      and a': "u_id u_reg = new_id" by auto
  from get_current_user_valid [OF live_login known] obtain u_login
    where b: "get_current_user key t_auth_login ?w (access_token (?tok t_login)) = Inr u_login"
      and b': "u_id u_login = new_id" by auto
  from reg log a a' b b' stored show ?thesis by blast
qed

theorem register_login_roundtrip_witness:
  "uc_email carol_form \<notin> set (map u_email (users world0))
   \<and> (200 :: int) < 100 + 1800 \<and> (400 :: int) < 300 + 1800
   \<and> (\<exists>tok_reg w' tok_login u_reg u_login.
      register ''key'' 100 ''u-carol'' ''salt-c'' world0 carol_form = (Inr tok_reg, w')
    \<and> login ''key'' 300 w'
          \<lparr>ul_email = uc_email carol_form, ul_password = uc_password carol_form\<rparr>
          = Inr tok_login
    \<and> get_current_user ''key'' 200 w' (access_token tok_reg) = Inr u_reg
    \<and> get_current_user ''key'' 400 w' (access_token tok_login) = Inr u_login
    \<and> (\<exists>d \<in> set (users w'). u_id d = ''u-carol'' \<and> u_email d = uc_email carol_form)
    \<and> u_id u_reg = ''u-carol'' \<and> u_id u_login = ''u-carol'')"
proof -
  have fresh: "\<forall>u \<in> set (users world0). u_email u \<noteq> uc_email carol_form"
    by (simp add: example_defs)
  have live: "(200 :: int) < 100 + 1800" "(400 :: int) < 300 + 1800" by simp_all
  have absent: "uc_email carol_form \<notin> set (map u_email (users world0))"
    by (simp add: example_defs)
  from register_login_roundtrip [OF fresh live, of "''key''" "''u-carol''" "''salt-c''"]
    absent live
  show ?thesis by (intro conjI)
qed

text \<open>
  C6. When some stored user has the email of the request, \<open>register\<close> ends with status
  400, whatever password and full name the request carries, and the world, the user store
  in it, is as it was.
\<close>

theorem register_duplicate_email:
  assumes "\<exists>u \<in> set (users w). u_email u = uc_email usr"
  shows "register key now new_id salt w usr
    = (Inl (HTTPException 400 ''Email already registered''), w)"
proof -
  from assms have "find_one (\<lambda>u. u_email u = uc_email usr) (users w) \<noteq> None"
    by (simp add: find_one_None)
  then show ?thesis by (auto simp: register_def)
qed

theorem register_duplicate_email_witness:
  "fst (register ''key'' 100 ''u-carol'' ''salt-c'' world0 carol_form)
     = Inr \<lparr>access_token = Jwt ''key'' \<lparr>sub = Some ''u-carol'', exp = Some 1900\<rparr>,
            token_type = ''bearer''\<rparr>
   \<and> (\<exists>u \<in> set (users world_carol).
         u_email u = uc_email (carol_form\<lparr>uc_password := ''other'', uc_full_name := ''C.''\<rparr>))
   \<and> register ''key'' 500 ''u-carol-2'' ''salt-d'' world_carol
        (carol_form\<lparr>uc_password := ''other'', uc_full_name := ''C.''\<rparr>)
       = (Inl (HTTPException 400 ''Email already registered''), world_carol)"
proof -
  have fresh: "\<forall>u \<in> set (users world0). u_email u \<noteq> uc_email carol_form"
    by (simp add: example_defs)
  note first = register_new [OF fresh, of "''key''" 100 "''u-carol''" "''salt-c''"]
  from first have a: "fst (register ''key'' 100 ''u-carol'' ''salt-c'' world0 carol_form)
     = Inr \<lparr>access_token = Jwt ''key'' \<lparr>sub = Some ''u-carol'', exp = Some 1900\<rparr>,
            token_type = ''bearer''\<rparr>"
    by simp
  from first have present: "\<exists>u \<in> set (users world_carol).
      u_email u = uc_email (carol_form\<lparr>uc_password := ''other'', uc_full_name := ''C.''\<rparr>)"
    by (simp add: world_carol_def)
  from register_duplicate_email [OF present, of "''key''" 500 "''u-carol-2''" "''salt-d''"] a present
  show ?thesis by (intro conjI)
qed

text \<open>
  C7. A token whose \<open>exp\<close> claim lies before the time of the call is rejected by
  \<open>get_current_user\<close> with status 401, whatever key signed it and whatever users are
  stored, the user its subject names among them.
\<close>

theorem expired_token_rejected:
  assumes "exp payload = Some expire" and "expire < now"
  shows "get_current_user key now w (Jwt signing_key payload)
    = Inl (HTTPException 401 ''Could not validate credentials'')"
  using assms by (simp add: get_current_user_def credentials_exception_def)

theorem expired_token_rejected_witness:
  "login ''key'' 0 world0 \<lparr>ul_email = ''alice@example.org'', ul_password = ''wonderland''\<rparr>
     = Inr \<lparr>access_token = alice_token, token_type = ''bearer''\<rparr>
   \<and> get_current_user ''key'' 1799 world0 alice_token = Inr alice
   \<and> exp \<lparr>sub = Some ''u-alice'', exp = Some 1800\<rparr> = Some 1800
   \<and> (1800 :: int) < 1801
   \<and> (\<exists>u \<in> set (users world0). u_id u = ''u-alice'')
   \<and> get_current_user ''key'' 1801 world0 alice_token
       = Inl (HTTPException 401 ''Could not validate credentials'')"
proof -
  have issued: "login ''key'' 0 world0
      \<lparr>ul_email = ''alice@example.org'', ul_password = ''wonderland''\<rparr>
     = Inr \<lparr>access_token = alice_token, token_type = ''bearer''\<rparr>"
    by (simp add: login_def find_one_def create_access_token_def jwt_encode_def minutes_def
        ACCESS_TOKEN_EXPIRE_MINUTES_def Let_def example_defs)
  have valid: "get_current_user ''key'' 1799 world0 alice_token = Inr alice"
    by (simp add: get_current_user_def find_one_def example_defs)
  have e: "exp \<lparr>sub = Some ''u-alice'', exp = Some 1800\<rparr> = Some 1800"
    and late: "(1800 :: int) < 1801" by simp_all
  have known: "\<exists>u \<in> set (users world0). u_id u = ''u-alice''"
    by (simp add: example_defs)
  from expired_token_rejected [OF e late, of "''key''" world0 "''key''"]
  have "get_current_user ''key'' 1801 world0 alice_token
       = Inl (HTTPException 401 ''Could not validate credentials'')"
    by (simp add: alice_token_def)
  with issued valid e late known show ?thesis by (intro conjI)
qed

text \<open>
  C8. When the last dot-separated piece of the file name, lower-cased, is not one of pdf,
  docx, pptx, jpg, jpeg, png, txt, \<open>upload_material\<close> ends with status 400 and the world
  is as it was: no file is written, the model is not called, no collection changes.
\<close>

theorem upload_rejects_extension:
  assumes "lower (last (split (filename file) CHR ''.'')) \<notin> allowed_extensions"
  shows "upload_material now file_id new_id reply w ttl file current_user
    = (Inl (HTTPException 400 ''File type not supported''), w)"
  using assms by (simp add: upload_material_def Let_def)

theorem upload_rejects_extension_witness:
  "lower (last (split (filename \<lparr>filename = ''setup.tar.EXE'', content = ''MZ''\<rparr>) CHR ''.''))
     = ''exe''
   \<and> ''exe'' \<notin> allowed_extensions
   \<and> upload_material 50 ''file-1'' ''m-3'' (LlmReply ''text'') world0 ''Tool''
        \<lparr>filename = ''setup.tar.EXE'', content = ''MZ''\<rparr> alice
       = (Inl (HTTPException 400 ''File type not supported''), world0)"
proof -
  have ext: "lower (last (split (filename \<lparr>filename = ''setup.tar.EXE'', content = ''MZ''\<rparr>)
      CHR ''.'')) = ''exe''"
    by (simp add: split_def lower_def lower_char_def)
  have bad: "''exe'' \<notin> allowed_extensions"
    by (simp add: allowed_extensions_def)
  have "lower (last (split (filename \<lparr>filename = ''setup.tar.EXE'', content = ''MZ''\<rparr>)
      CHR ''.'')) \<notin> allowed_extensions"
    unfolding ext by (rule bad)
  from upload_rejects_extension [OF this, of 50 "''file-1''" "''m-3''" "LlmReply ''text''" world0
      "''Tool''" alice] ext bad
  show ?thesis by (intro conjI)
qed

text \<open>
  C9. A successful \<open>generate_flashcards\<close> call returns as many flashcards as the parsed
  reply of the model lists, at least one, and appends exactly these to the stored
  flashcards. The number 15 is only asked for in the prompt.
\<close>

theorem flashcard_batch_size:
  assumes "generate_flashcards now uuid reply w mid current_user = (Inr cards, w')"
  shows "\<exists>parsed. reply = LlmReply parsed \<and> length cards = length parsed
    \<and> cards \<noteq> [] \<and> flashcards w' = flashcards w @ cards"
proof (cases reply)
  case (LlmError msg)
  with assms show ?thesis
    by (auto simp: generate_flashcards_def generate_flashcards_with_ai_def Let_def
        split: option.splits)
next
  case (LlmReply parsed)
  with assms show ?thesis
    by (auto simp: generate_flashcards_def generate_flashcards_with_ai_def Let_def
        insert_many_flashcards_def make_flashcards_length
        split: option.splits sum.splits if_splits dest: build_flashcard_data_length)
qed

theorem flashcard_batch_size_witness:
  "generate_flashcards 40 card_ids (LlmReply [raw_card, raw_card])
       world0 ''m-1'' alice
     = (Inr [alice_card\<lparr>fc_id := ''f'', fc_created_at := 40\<rparr>,
             alice_card\<lparr>fc_id := ''ff'', fc_created_at := 40\<rparr>],
        world0\<lparr>llm_calls := [FlashcardPrompt ''Paris is the capital of France.''],
               flashcards := [alice_card, bob_card,
                              alice_card\<lparr>fc_id := ''f'', fc_created_at := 40\<rparr>,
                              alice_card\<lparr>fc_id := ''ff'', fc_created_at := 40\<rparr>]\<rparr>)
   \<and> (\<exists>parsed. LlmReply [raw_card, raw_card] = LlmReply parsed
         \<and> length [alice_card\<lparr>fc_id := ''f'', fc_created_at := 40\<rparr>,
                    alice_card\<lparr>fc_id := ''ff'', fc_created_at := 40\<rparr>] = length parsed)"
proof -
  have run: "generate_flashcards 40 card_ids
       (LlmReply [raw_card, raw_card]) world0 ''m-1'' alice
     = (Inr [alice_card\<lparr>fc_id := ''f'', fc_created_at := 40\<rparr>,
             alice_card\<lparr>fc_id := ''ff'', fc_created_at := 40\<rparr>],
        world0\<lparr>llm_calls := [FlashcardPrompt ''Paris is the capital of France.''],
               flashcards := [alice_card, bob_card,
                              alice_card\<lparr>fc_id := ''f'', fc_created_at := 40\<rparr>,
                              alice_card\<lparr>fc_id := ''ff'', fc_created_at := 40\<rparr>]\<rparr>)"
    by (simp add: generate_flashcards_def generate_flashcards_with_ai_def find_material_def
        find_one_def insert_many_flashcards_def Let_def example_defs)
  from flashcard_batch_size [OF run] run show ?thesis by blast
qed

text \<open>
  The claim C9 as stated fixes the size of the batch at 15 whatever the parsed reply
  lists. When the reply lists one flashcard the call succeeds, and one flashcard is
  returned and stored.
\<close>

theorem flashcard_batch_not_15_counterexample:
  "generate_flashcards 40 card_ids (LlmReply [raw_card])
       world0 ''m-1'' alice
     = (Inr [alice_card\<lparr>fc_id := ''f'', fc_created_at := 40\<rparr>],
        world0\<lparr>llm_calls := [FlashcardPrompt ''Paris is the capital of France.''],
               flashcards := [alice_card, bob_card,
                              alice_card\<lparr>fc_id := ''f'', fc_created_at := 40\<rparr>]\<rparr>)
   \<and> length [alice_card\<lparr>fc_id := ''f'', fc_created_at := 40\<rparr>] \<noteq> 15"
  by (simp add: generate_flashcards_def generate_flashcards_with_ai_def find_material_def
      find_one_def insert_many_flashcards_def Let_def example_defs)

end
